theory Spec2Isabelle
  imports Main "HOL-Library.Sublist" "HOL-Library.AList"
begin

section \<open>Python values used by \<^verbatim>\<open>security/guardduty/index.py\<close>\<close>

text \<open>
  The handler is a sequence of calls to the provider's services. Each call either returns or
  raises; what it does is not in the repository, so the answers of the services are a
  parameter of the model (the record \<open>world\<close> below) and the program is a function from a
  state to a result and a new state. The state holds the two module-level accumulators
  \<^verbatim>\<open>failed_regions\<close> and \<^verbatim>\<open>failed_members\<close> and the trace of everything the program did to the
  outside: the service calls with their arguments and the log lines.

  A Python \<^verbatim>\<open>str\<close> is modelled as a \<open>string\<close>: the characters are the code points below 256.
\<close>

datatype exn =
    ClientError string
  | IndexError string
  | KeyError string
  | TypeError string
  | UnboundLocalError string
  | OtherException string

text \<open>\<^verbatim>\<open>except ClientError\<close> catches the first constructor only; \<^verbatim>\<open>except Exception\<close> catches
  every exception of the model.\<close>

fun is_ClientError :: "exn \<Rightarrow> bool" where
  "is_ClientError (ClientError m) = True"
| "is_ClientError (IndexError m) = False"
| "is_ClientError (KeyError m) = False"
| "is_ClientError (TypeError m) = False"
| "is_ClientError (UnboundLocalError m) = False"
| "is_ClientError (OtherException m) = False"

definition is_Exception :: "exn \<Rightarrow> bool" where
  "is_Exception e = True"

text \<open>\<^verbatim>\<open>str(e)\<close>: the message; for a \<^verbatim>\<open>KeyError\<close> the quoted key.\<close>

fun exn_str :: "exn \<Rightarrow> string" where
  "exn_str (ClientError m) = m"
| "exn_str (IndexError m) = m"
| "exn_str (KeyError k) = CHR 0x27 # k @ [CHR 0x27]"
| "exn_str (TypeError m) = m"
| "exn_str (UnboundLocalError m) = m"
| "exn_str (OtherException m) = m"

datatype json =
    JNull
  | JBool bool
  | JInt int
  | JStr string
  | JList "json list"
  | JObj "(string \<times> json) list"

record account =
  Id :: string
  Email :: string

record member =
  AccountId :: string
  MemberEmail :: string

record unprocessed =
  UnprocessedAccountId :: string
  Result :: string

record credentials =
  AccessKeyId :: string
  SecretAccessKey :: string
  SessionToken :: string

record trail =
  S3BucketName :: string
  S3KeyPrefix :: "string option"
  HomeRegion :: string

record key_metadata =
  KeyId :: string
  Arn :: string

record destination_properties =
  DestinationArn :: string
  KmsKeyArn :: string

record lambda_context =
  log_stream_name :: string

section \<open>The outside world\<close>

datatype level = INFO | ERROR

datatype action =
    Log level string
  | LogJson level json
  | Sts_get_caller_identity
  | Sts_assume_role string string
  | Cloudtrail_describe_trails "string list"
  | S3_create_bucket string "string option"
  | S3_put_bucket_policy string string
  | S3_put_bucket_encryption string string
  | Kms_describe_key string string
  | Kms_create_key string string string
  | Kms_create_alias string string string
  | Guardduty_enable_organization_admin_account string string
  | Guardduty_disable_organization_admin_account string string
  | Guardduty_list_detectors string
  | Guardduty_create_publishing_destination string string string destination_properties string
  | Organizations_list_accounts
  | Guardduty_create_members string string "member list"
  | Guardduty_update_organization_configuration string string bool
  | Http_request string string string "(string \<times> string) list"

text \<open>
  The configuration read from the process environment at import (lines 36-37) and the answer
  of every service call. A call that is made once per region takes the region; a \<open>Inl\<close> answer
  is the exception the call raises. Building a client (\<^verbatim>\<open>session.client\<close>, \<^verbatim>\<open>boto3.client\<close>) makes
  no request and is taken not to raise.
\<close>

record world =
  gdmaster_account_number :: string
  role_to_assume :: string
  get_available_regions :: "string list"
  sts_get_caller_identity :: "exn + string"
  sts_assume_role :: "string \<Rightarrow> exn + credentials"
  cloudtrail_describe_trails :: "exn + trail list"
  s3_create_bucket :: "string \<Rightarrow> string option \<Rightarrow> exn + unit"
  s3_put_bucket_policy :: "string \<Rightarrow> string \<Rightarrow> exn + unit"
  s3_put_bucket_encryption :: "string \<Rightarrow> exn + unit"
  kms_describe_key :: "string \<Rightarrow> exn + key_metadata"
  kms_create_key :: "string \<Rightarrow> exn + key_metadata"
  kms_create_alias :: "string \<Rightarrow> string \<Rightarrow> exn + unit"
  gd_enable_organization_admin_account :: "string \<Rightarrow> exn + unit"
  gd_disable_organization_admin_account :: "string \<Rightarrow> exn + unit"
  gd_list_detectors :: "string \<Rightarrow> exn + string list"
  gd_create_publishing_destination :: "string \<Rightarrow> string \<Rightarrow> exn + unit"
  org_list_accounts :: "string \<Rightarrow> exn + account list"
  gd_create_members :: "string \<Rightarrow> string \<Rightarrow> member list \<Rightarrow> exn + unprocessed list"
  gd_update_organization_configuration :: "string \<Rightarrow> string \<Rightarrow> exn + unit"
  http_request :: "string \<Rightarrow> string \<Rightarrow> exn + string option"

record state =
  trace :: "action list"
  failed_regions :: "string list"
  failed_members :: "(string \<times> unprocessed list list) list"

section \<open>Statements as state transformers\<close>

type_synonym 'a prog = "state \<Rightarrow> (exn + 'a) \<times> state"

definition ret :: "'a \<Rightarrow> 'a prog" where
  "ret x = (\<lambda>s. (Inr x, s))"

definition raise :: "exn \<Rightarrow> 'a prog" where
  "raise e = (\<lambda>s. (Inl e, s))"

definition bnd :: "'a prog \<Rightarrow> ('a \<Rightarrow> 'b prog) \<Rightarrow> 'b prog" where
  "bnd m f = (\<lambda>s. case m s of (Inl e, s') \<Rightarrow> (Inl e, s') | (Inr x, s') \<Rightarrow> f x s')"

definition seq :: "'a prog \<Rightarrow> 'b prog \<Rightarrow> 'b prog" where
  "seq m k = bnd m (\<lambda>_. k)"

text \<open>\<^verbatim>\<open>try: m  except C as e: h\<close>, where \<open>catches\<close> says which exceptions the class \<^verbatim>\<open>C\<close> holds.\<close>

definition try_except :: "'a prog \<Rightarrow> (exn \<Rightarrow> bool) \<Rightarrow> (exn \<Rightarrow> 'a prog) \<Rightarrow> 'a prog" where
  "try_except m catches h =
     (\<lambda>s. case m s of
        (Inl e, s') \<Rightarrow> if catches e then h e s' else (Inl e, s')
      | (Inr x, s') \<Rightarrow> (Inr x, s'))"

definition emit :: "action \<Rightarrow> unit prog" where
  "emit a = (\<lambda>s. (Inr (), s\<lparr>trace := trace s @ [a]\<rparr>))"

text \<open>A service call: the request is recorded, then the world's answer is returned or raised.\<close>

definition api_call :: "action \<Rightarrow> exn + 'a \<Rightarrow> 'a prog" where
  "api_call a r = seq (emit a) (case r of Inl e \<Rightarrow> raise e | Inr x \<Rightarrow> ret x)"

text \<open>
  The logger's level is \<^verbatim>\<open>INFO\<close> (line 32), so \<^verbatim>\<open>logger.debug\<close> writes nothing and is left out,
  except where building its message can raise (line 242). \<^verbatim>\<open>exc_info=True\<close> adds a traceback
  to the line, which is not modelled.
\<close>

definition logger_info :: "string \<Rightarrow> unit prog" where
  "logger_info msg = emit (Log INFO msg)"

definition logger_error :: "string \<Rightarrow> unit prog" where
  "logger_error msg = emit (Log ERROR msg)"

section \<open>Library functions on strings and lists\<close>

text \<open>\<^verbatim>\<open>s.replace(old, new)\<close>: every occurrence of \<open>old\<close>, left to right, without overlap.\<close>

fun str_replace :: "string \<Rightarrow> string \<Rightarrow> string \<Rightarrow> string" where
  "str_replace old new [] = (if old = [] then new else [])"
| "str_replace old new (c # cs) =
     (if old = [] then new @ c # str_replace old new cs
      else if prefix old (c # cs) then new @ str_replace old new (drop (length old) (c # cs))
      else c # str_replace old new cs)"

text \<open>\<^verbatim>\<open>s.split(sep)\<close> for a separator of one character.\<close>

fun str_split :: "char \<Rightarrow> string \<Rightarrow> string list" where
  "str_split sep [] = [[]]"
| "str_split sep (c # cs) =
     (if c = sep then [] # str_split sep cs
      else (case str_split sep cs of
              [] \<Rightarrow> [[c]]
            | p # ps \<Rightarrow> (c # p) # ps))"

text \<open>\<^verbatim>\<open>xs[i]\<close> for \<open>i \<ge> 0\<close>: an index out of range raises \<^verbatim>\<open>IndexError\<close>.\<close>

definition getitem :: "'a list \<Rightarrow> nat \<Rightarrow> 'a prog" where
  "getitem xs i =
     (if i < length xs then ret (xs ! i) else raise (IndexError ''list index out of range''))"

text \<open>\<^verbatim>\<open>d[k]\<close> on a dict: a missing key raises \<^verbatim>\<open>KeyError\<close>.\<close>

definition dict_getitem :: "(string \<rightharpoonup> 'a) \<Rightarrow> string \<Rightarrow> 'a prog" where
  "dict_getitem d k = (case d k of None \<Rightarrow> raise (KeyError k) | Some v \<Rightarrow> ret v)"

definition startswith :: "string \<Rightarrow> string \<Rightarrow> bool" where
  "startswith s p = prefix p s"

text \<open>\<^verbatim>\<open>str(n)\<close> for a natural number.\<close>

definition digit_char :: "nat \<Rightarrow> char" where
  "digit_char d = char_of (48 + d)"

fun str_nat :: "nat \<Rightarrow> string" where
  "str_nat n = (if n < 10 then [digit_char n] else str_nat (n div 10) @ [digit_char (n mod 10)])"

declare str_nat.simps [simp del]

definition str_int :: "int \<Rightarrow> string" where
  "str_int i = (if i < 0 then CHR ''-'' # str_nat (nat (- i)) else str_nat (nat i))"

section \<open>\<^verbatim>\<open>json.dumps\<close> with its default arguments\<close>

text \<open>
  The encoder of the standard library as the program calls it: items separated by a comma and
  a space, keys from values by a colon and a space, and (\<^verbatim>\<open>ensure_ascii\<close>) every character
  outside the printable ASCII range written as an escape.
\<close>

definition dquote :: char where
  "dquote = CHR 0x22"

definition backslash :: char where
  "backslash = CHR 0x5C"

definition hex_char :: "nat \<Rightarrow> char" where
  "hex_char d = (if d < 10 then char_of (48 + d) else char_of (87 + d))"

definition escape_char :: "char \<Rightarrow> string" where
  "escape_char c =
     (if c = dquote then [backslash, dquote]
      else if c = backslash then [backslash, backslash]
      else if c = CHR 0x0A then [backslash, CHR ''n'']
      else if c = CHR 0x0D then [backslash, CHR ''r'']
      else if c = CHR 0x09 then [backslash, CHR ''t'']
      else if c = CHR 0x08 then [backslash, CHR ''b'']
      else if c = CHR 0x0C then [backslash, CHR ''f'']
      else if (of_char c :: nat) < 32 \<or> 126 < (of_char c :: nat)
        then [backslash, CHR ''u'', CHR ''0'', CHR ''0'',
              hex_char ((of_char c :: nat) div 16), hex_char ((of_char c :: nat) mod 16)]
      else [c])"

definition json_string :: "string \<Rightarrow> string" where
  "json_string s = dquote # concat (map escape_char s) @ [dquote]"

fun json_dumps :: "json \<Rightarrow> string"
  and dumps_elems :: "json list \<Rightarrow> string"
  and dumps_items :: "(string \<times> json) list \<Rightarrow> string" where
  "json_dumps JNull = ''null''"
| "json_dumps (JBool b) = (if b then ''true'' else ''false'')"
| "json_dumps (JInt i) = str_int i"
| "json_dumps (JStr s) = json_string s"
| "json_dumps (JList xs) = ''['' @ dumps_elems xs @ '']''"
| "json_dumps (JObj kvs) = ''{'' @ dumps_items kvs @ ''}''"
| "dumps_elems [] = []"
| "dumps_elems [x] = json_dumps x"
| "dumps_elems (x # y # ys) = json_dumps x @ '', '' @ dumps_elems (y # ys)"
| "dumps_items [] = []"
| "dumps_items [(k, v)] = json_string k @ '': '' @ json_dumps v"
| "dumps_items ((k, v) # kv # kvs) =
     json_string k @ '': '' @ json_dumps v @ '', '' @ dumps_items (kv # kvs)"

section \<open>The program\<close>

subsection \<open>\<^verbatim>\<open>assume_role\<close> (lines 118-145)\<close>

definition assume_role :: "world \<Rightarrow> string \<Rightarrow> string \<Rightarrow> credentials prog" where
  "assume_role w aws_account_number role_name =
     bnd (api_call Sts_get_caller_identity (sts_get_caller_identity w)) (\<lambda>arn.
     bnd (getitem (str_split CHR '':'' arn) 1) (\<lambda>partition.
     (let role_arn = ''arn:'' @ partition @ '':iam::'' @ aws_account_number @ '':role/'' @ role_name
      in bnd (api_call (Sts_assume_role role_arn ''EnableGuardDuty'') (sts_assume_role w role_arn))
           (\<lambda>sts_session. ret sts_session))))"

subsection \<open>\<^verbatim>\<open>enable_gd_master\<close> (lines 148-168) and \<^verbatim>\<open>disable_gd_master\<close> (lines 171-188)\<close>

definition enable_gd_master :: "world \<Rightarrow> string \<Rightarrow> unit prog" where
  "enable_gd_master w region =
     seq (logger_info (''Enabling gd master for region '' @ region))
       (try_except
          (api_call (Guardduty_enable_organization_admin_account region (gdmaster_account_number w))
             (gd_enable_organization_admin_account w region))
          is_Exception
          (\<lambda>e. seq (logger_info (''Skipping Account '' @ gdmaster_account_number w
                                    @ '' in region '' @ region @ ''. Already enabled''))
                   (logger_info (''Error to enable GD master in region '' @ region))))"

definition failed_regions_append :: "string \<Rightarrow> unit prog" where
  "failed_regions_append region = (\<lambda>s. (Inr (), s\<lparr>failed_regions := failed_regions s @ [region]\<rparr>))"

text \<open>No function of the file calls \<open>disable_gd_master\<close>; it is the only place that appends to
  \<^verbatim>\<open>failed_regions\<close>.\<close>

definition disable_gd_master :: "world \<Rightarrow> string \<Rightarrow> unit prog" where
  "disable_gd_master w region =
     seq (logger_info (''disabling gd master for region '' @ region))
       (try_except
          (api_call (Guardduty_disable_organization_admin_account region (gdmaster_account_number w))
             (gd_disable_organization_admin_account w region))
          is_Exception
          (\<lambda>e. seq (failed_regions_append region)
                   (logger_info (''SkippingAccount '' @ gdmaster_account_number w
                                    @ '' in region '' @ region @ ''. Already disabled''))))"

subsection \<open>\<^verbatim>\<open>enable_gd_member\<close> (lines 191-248)\<close>

text \<open>The loop of lines 220-227 over the listed accounts.\<close>

fun build_details :: "string \<Rightarrow> account list \<Rightarrow> member list" where
  "build_details master [] = []"
| "build_details master (account # accounts) =
     (if Id account \<noteq> master
      then \<lparr>AccountId = Id account, MemberEmail = Email account\<rparr> # build_details master accounts
      else build_details master accounts)"

text \<open>\<^verbatim>\<open>failed_members.update(region=failed_accounts)\<close> (line 248): a keyword argument, so the key
  is the string \<^verbatim>\<open>'region'\<close>, whatever the variable \<^verbatim>\<open>region\<close> holds.\<close>

definition failed_members_dict_update :: "string \<Rightarrow> unprocessed list list \<Rightarrow> unit prog" where
  "failed_members_dict_update key failed_accounts =
     (\<lambda>s. (Inr (), s\<lparr>failed_members := AList.update key failed_accounts (failed_members s)\<rparr>))"

text \<open>
  The handler of \<^verbatim>\<open>except ClientError\<close> (lines 241-243) reads the loop variable \<^verbatim>\<open>account\<close>. After
  a loop over no accounts the variable is unbound and line 242 raises \<^verbatim>\<open>UnboundLocalError\<close> while
  it formats the message. Otherwise \<^verbatim>\<open>account\<close> is the last listed account, a dict (line 221
  subscripts it with \<^verbatim>\<open>'Id'\<close>), and line 243 uses it as the key of a dict display: a dict is not
  hashable, so that raises \<^verbatim>\<open>TypeError\<close> before \<^verbatim>\<open>append\<close> is called.
\<close>

definition client_error_handler :: "account list \<Rightarrow> exn \<Rightarrow> unprocessed list list prog" where
  "client_error_handler accounts e =
     (if accounts = []
      then raise (UnboundLocalError ''local variable account referenced before assignment'')
      else raise (TypeError ''unhashable type: dict''))"

definition enable_gd_member ::
    "world \<Rightarrow> credentials \<Rightarrow> string \<Rightarrow> destination_properties \<Rightarrow> unit prog" where
  "enable_gd_member w session region properties =
     bnd (try_except
            (bnd (api_call (Guardduty_list_detectors region) (gd_list_detectors w region))
               (\<lambda>detector_ids. ret (Some detector_ids)))
            is_Exception
            (\<lambda>ex. seq (logger_info (''      Unable to list detectors in region '' @ region))
                      (ret None)))
       (\<lambda>listed. case listed of
          None \<Rightarrow> ret ()
        | Some detector_ids \<Rightarrow>
            bnd (getitem detector_ids 0) (\<lambda>detector_id.
            seq (api_call
                   (Guardduty_create_publishing_destination region detector_id ''S3'' properties
                      detector_id)
                   (gd_create_publishing_destination w region detector_id))
           (bnd (api_call Organizations_list_accounts (org_list_accounts w region)) (\<lambda>accounts.
            (let details = build_details (gdmaster_account_number w) accounts
             in bnd (try_except
                       (bnd (api_call (Guardduty_create_members region detector_id details)
                               (gd_create_members w region detector_id details))
                          (\<lambda>unprocessed_accounts.
                            (let failed_accounts =
                                   (if length unprocessed_accounts > 0 then [unprocessed_accounts]
                                    else [])
                             in seq (api_call
                                       (Guardduty_update_organization_configuration region
                                          detector_id True)
                                       (gd_update_organization_configuration w region detector_id))
                                  (ret failed_accounts))))
                       is_ClientError
                       (client_error_handler accounts))
                  (\<lambda>failed_accounts.
                     if failed_accounts \<noteq> [] then failed_members_dict_update ''region'' failed_accounts
                     else ret ()))))))"

subsection \<open>\<^verbatim>\<open>create_kms_key\<close> (lines 251-351)\<close>

definition key_policy :: "string \<Rightarrow> json" where
  "key_policy master =
     JObj [
       (''Version'', JStr ''2012-10-17''),
       (''Id'', JStr ''auto-controltower-guardduty''),
       (''Statement'', JList [
          JObj [
            (''Sid'', JStr ''Enable IAM User Permissions''),
            (''Effect'', JStr ''Allow''),
            (''Principal'', JObj [(''AWS'', JStr (''arn:aws:iam::'' @ master @ '':root''))]),
            (''Action'', JStr ''kms:*''),
            (''Resource'', JStr ''*'')],
          JObj [
            (''Sid'', JStr ''Allow access for Key Administrators''),
            (''Effect'', JStr ''Allow''),
            (''Principal'', JObj [(''AWS'', JStr (''arn:aws:iam::'' @ master
                                                   @ '':role/AWSControlTowerExecution''))]),
            (''Action'', JList [
               JStr ''kms:Create*'', JStr ''kms:Describe*'', JStr ''kms:Enable*'',
               JStr ''kms:List*'', JStr ''kms:Put*'', JStr ''kms:Update*'', JStr ''kms:Revoke*'',
               JStr ''kms:Disable*'', JStr ''kms:Get*'', JStr ''kms:Delete*'',
               JStr ''kms:TagResource'', JStr ''kms:UntagResource'',
               JStr ''kms:ScheduleKeyDeletion'', JStr ''kms:CancelKeyDeletion'']),
            (''Resource'', JStr ''*'')],
          JObj [
            (''Sid'', JStr ''Allow use of the key''),
            (''Effect'', JStr ''Allow''),
            (''Principal'', JObj [(''Service'', JStr ''guardduty.amazonaws.com'')]),
            (''Action'', JList [
               JStr ''kms:Encrypt'', JStr ''kms:Decrypt'', JStr ''kms:ReEncrypt*'',
               JStr ''kms:GenerateDataKey*'', JStr ''kms:DescribeKey'']),
            (''Resource'', JStr ''*'')],
          JObj [
            (''Sid'', JStr ''Allow attachment of persistent resources''),
            (''Effect'', JStr ''Allow''),
            (''Principal'', JObj [(''Service'', JStr ''guardduty.amazonaws.com'')]),
            (''Action'', JList [
               JStr ''kms:CreateGrant'', JStr ''kms:ListGrants'', JStr ''kms:RevokeGrant'']),
            (''Resource'', JStr ''*''),
            (''Condition'', JObj [
               (''Bool'', JObj [(''kms:GrantIsForAWSResource'', JStr ''true'')])])]])]"

definition create_kms_key :: "world \<Rightarrow> credentials \<Rightarrow> string \<Rightarrow> string prog" where
  "create_kms_key w session region =
     (let key_alias = ''alias/controltower/guardduty''
      in try_except
           (bnd (api_call (Kms_describe_key region key_alias) (kms_describe_key w region))
              (\<lambda>key_response.
                 seq (logger_info (''Existing key '' @ key_alias @ '' found.''))
                   (ret (Arn key_response))))
           is_Exception
           (\<lambda>e. seq (logger_info (''Creating new encryption '' @ key_alias @ ''key''))
                   (let policy = json_dumps (key_policy (gdmaster_account_number w))
                    in bnd (api_call
                              (Kms_create_key region policy
                                 ''The key to encrypt/decrypt GuardDuty findings'')
                              (kms_create_key w region))
                         (\<lambda>key_result.
                            seq (api_call (Kms_create_alias region key_alias (KeyId key_result))
                                   (kms_create_alias w region (KeyId key_result)))
                              (ret (Arn key_result))))))"

subsection \<open>\<^verbatim>\<open>create_s3_destination\<close> (lines 354-519)\<close>

definition allowed_regions :: "string list" where
  "allowed_regions =
     [''eu-west-1'', ''us-west-1'', ''us-west-2'', ''ap-south-1'', ''ap-southeast-1'',
      ''ap-southeast-2'', ''ap-northeast-1'', ''sa-east-1'', ''cn-north-1'', ''eu-central-1'']"

definition bucket_policy :: "string \<Rightarrow> string \<Rightarrow> json" where
  "bucket_policy bucket_name kms_key_arn =
     JObj [
       (''Version'', JStr ''2012-10-17''),
       (''Statement'', JList [
          JObj [
            (''Sid'', JStr ''AWSBucketPermissionsCheck''),
            (''Effect'', JStr ''Allow''),
            (''Principal'', JObj [(''Service'', JStr ''guardduty.amazonaws.com'')]),
            (''Action'', JList [
               JStr ''s3:GetBucketAcl'', JStr ''s3:ListBucket'', JStr ''s3:GetBucketLocation'']),
            (''Resource'', JStr (''arn:aws:s3:::'' @ bucket_name))],
          JObj [
            (''Sid'', JStr ''AWSBucketDelivery''),
            (''Effect'', JStr ''Allow''),
            (''Principal'', JObj [(''Service'', JStr ''guardduty.amazonaws.com'')]),
            (''Action'', JStr ''s3:PutObject''),
            (''Resource'', JStr (''arn:aws:s3:::'' @ bucket_name @ ''/*''))],
          JObj [
            (''Sid'', JStr ''Deny unencrypted object uploads. This is optional''),
            (''Effect'', JStr ''Deny''),
            (''Principal'', JObj [(''Service'', JStr ''guardduty.amazonaws.com'')]),
            (''Action'', JStr ''s3:PutObject''),
            (''Resource'', JStr (''arn:aws:s3:::'' @ bucket_name @ ''/*'')),
            (''Condition'', JObj [
               (''StringNotEquals'', JObj [
                  (''s3:x-amz-server-side-encryption'', JStr ''aws:kms'')])])],
          JObj [
            (''Sid'', JStr ''Deny incorrect encryption header. This is optional''),
            (''Effect'', JStr ''Deny''),
            (''Principal'', JObj [(''Service'', JStr ''guardduty.amazonaws.com'')]),
            (''Action'', JStr ''s3:PutObject''),
            (''Resource'', JStr (''arn:aws:s3:::'' @ bucket_name @ ''/*'')),
            (''Condition'', JObj [
               (''StringNotEquals'', JObj [
                  (''s3:x-amz-server-side-encryption-aws-kms-key-id'', JStr kms_key_arn)])])],
          JObj [
            (''Sid'', JStr ''Deny non-HTTPS access''),
            (''Effect'', JStr ''Deny''),
            (''Principal'', JStr ''*''),
            (''Action'', JStr ''s3:*''),
            (''Resource'', JStr (''arn:aws:s3:::'' @ bucket_name @ ''/*'')),
            (''Condition'', JObj [
               (''Bool'', JObj [(''aws:SecureTransport'', JStr ''false'')])])]])]"

text \<open>Lines 404-428: the bucket is created with the location constraint the trail's home
  region asks for, and only then is the key looked up or created.\<close>

definition create_bucket_and_key ::
    "world \<Rightarrow> credentials \<Rightarrow> string \<Rightarrow> string \<Rightarrow> string prog" where
  "create_bucket_and_key w sts_session bucket_name bucket_region =
     try_except
       (if bucket_region \<in> set allowed_regions then
          seq (api_call (S3_create_bucket bucket_name (Some bucket_region))
                 (s3_create_bucket w bucket_name (Some bucket_region)))
            (create_kms_key w sts_session bucket_region)
        else if startswith bucket_region ''eu'' then
          seq (api_call (S3_create_bucket bucket_name (Some ''EU''))
                 (s3_create_bucket w bucket_name (Some ''EU'')))
            (create_kms_key w sts_session bucket_region)
        else
          seq (api_call (S3_create_bucket bucket_name None) (s3_create_bucket w bucket_name None))
            (create_kms_key w sts_session ''us-east-1''))
       is_Exception
       (\<lambda>e. seq (logger_info (''Bucket '' @ bucket_name @ '' already created.''))
               (seq (logger_error (''Skipping creating bucket '' @ bucket_name))
                  (ret [])))"

definition create_s3_destination :: "world \<Rightarrow> credentials \<Rightarrow> destination_properties prog" where
  "create_s3_destination w sts_session =
     bnd (api_call (Cloudtrail_describe_trails [''aws-controltower-BaselineCloudTrail''])
            (cloudtrail_describe_trails w)) (\<lambda>trailList.
     bnd (getitem trailList 0) (\<lambda>trail0.
     (let trail_bucket_name = S3BucketName trail0;
          bucket_name = str_replace ''logs'' ''guardduty'' trail_bucket_name
      in bnd (case S3KeyPrefix trail0 of
                None \<Rightarrow> raise (KeyError ''S3KeyPrefix'')
              | Some bucket_prefix \<Rightarrow> ret bucket_prefix) (\<lambda>bucket_prefix.
         (let bucket_region = HomeRegion trail0
          in bnd (getitem (str_split CHR ''-'' trail_bucket_name) 3) (\<lambda>bucket_account.
             bnd (assume_role w bucket_account (role_to_assume w)) (\<lambda>log_account_session.
             bnd (create_bucket_and_key w sts_session bucket_name bucket_region) (\<lambda>kms_key_arn.
             (let policy = json_dumps (bucket_policy bucket_name kms_key_arn)
              in seq (api_call (S3_put_bucket_policy bucket_name policy)
                        (s3_put_bucket_policy w bucket_name policy))
                (seq (api_call (S3_put_bucket_encryption bucket_name ''AES256'')
                        (s3_put_bucket_encryption w bucket_name))
                   (ret \<lparr>DestinationArn = ''arn:aws:s3:::'' @ bucket_name,
                         KmsKeyArn = kms_key_arn\<rparr>)))))))))))"

subsection \<open>\<^verbatim>\<open>cfnresponse\<close> (lines 80-115)\<close>

text \<open>\<^verbatim>\<open>physicalResourceId or ls\<close>: \<^verbatim>\<open>None\<close> and the empty string are both false.\<close>

definition or_default :: "string option \<Rightarrow> string \<Rightarrow> string" where
  "or_default x d = (case x of None \<Rightarrow> d | Some v \<Rightarrow> if v = [] then d else v)"

text \<open>The default values of the parameters (lines 84-86).\<close>

definition default_responseData :: json where
  "default_responseData = JObj []"

definition default_physicalResourceId :: "string option" where
  "default_physicalResourceId = None"

definition default_noEcho :: bool where
  "default_noEcho = False"

text \<open>Lines 88-97, once the three keys of the event have been read.\<close>

definition responseBody ::
    "string \<Rightarrow> string \<Rightarrow> string \<Rightarrow> string \<Rightarrow> string \<Rightarrow> json \<Rightarrow> string option \<Rightarrow> bool \<Rightarrow> json" where
  "responseBody ls stack_id request_id logical_id responseStatus responseData physicalResourceId noEcho =
     JObj [
       (''Status'', JStr responseStatus),
       (''Reason'', JStr (''See the details in CloudWatch Log Stream: '' @ ls)),
       (''PhysicalResourceId'', JStr (or_default physicalResourceId ls)),
       (''StackId'', JStr stack_id),
       (''RequestId'', JStr request_id),
       (''LogicalResourceId'', JStr logical_id),
       (''NoEcho'', JBool noEcho),
       (''Data'', responseData)]"

definition none_reason_error :: exn where
  "none_reason_error =
     TypeError (''can only concatenate str (not '' @ [dquote] @ ''NoneType'' @ [dquote]
                @ '') to str'')"

definition cfnresponse ::
    "world \<Rightarrow> (string \<rightharpoonup> string) \<Rightarrow> lambda_context \<Rightarrow> string \<Rightarrow> json \<Rightarrow> string option \<Rightarrow> bool
      \<Rightarrow> unit prog" where
  "cfnresponse w event context responseStatus responseData physicalResourceId noEcho =
     (let ls = log_stream_name context
      in bnd (dict_getitem event ''StackId'') (\<lambda>stack_id.
         bnd (dict_getitem event ''RequestId'') (\<lambda>request_id.
         bnd (dict_getitem event ''LogicalResourceId'') (\<lambda>logical_id.
         (let json_responseBody =
                json_dumps (responseBody ls stack_id request_id logical_id responseStatus
                              responseData physicalResourceId noEcho);
              headers = [(''content-type'', []),
                         (''content-length'', str_nat (length json_responseBody))]
          in try_except
               (bnd (dict_getitem event ''ResponseURL'') (\<lambda>url.
                bnd (api_call (Http_request ''PUT'' url json_responseBody headers)
                       (http_request w url json_responseBody)) (\<lambda>reason.
                  case reason of
                    None \<Rightarrow> raise none_reason_error
                  | Some r \<Rightarrow> ret ())))
               is_Exception
               (\<lambda>e. logger_error (''cfnresponse(..) failed executing requests.put(..): ''
                                     @ exn_str e)))))))"

subsection \<open>\<^verbatim>\<open>handler\<close> (lines 44-77)\<close>

text \<open>The body of the loop (lines 56-64) and the loop (line 55).\<close>

definition region_body ::
    "world \<Rightarrow> credentials \<Rightarrow> destination_properties \<Rightarrow> string \<Rightarrow> unit prog" where
  "region_body w gdmaster_account_session bucket_arn region =
     try_except
       (seq (enable_gd_master w region)
          (enable_gd_member w gdmaster_account_session region bucket_arn))
       is_Exception
       (\<lambda>e. logger_error (''Error to enable master or member in region '' @ region))"

fun region_loop ::
    "world \<Rightarrow> credentials \<Rightarrow> destination_properties \<Rightarrow> string list \<Rightarrow> unit prog" where
  "region_loop w gdmaster_account_session bucket_arn [] = ret ()"
| "region_loop w gdmaster_account_session bucket_arn (region # regions) =
     seq (region_body w gdmaster_account_session bucket_arn region)
       (region_loop w gdmaster_account_session bucket_arn regions)"

definition unprocessed_json :: "unprocessed \<Rightarrow> json" where
  "unprocessed_json u =
     JObj [(''AccountId'', JStr (UnprocessedAccountId u)), (''Result'', JStr (Result u))]"

definition failed_members_json :: "(string \<times> unprocessed list list) list \<Rightarrow> json" where
  "failed_members_json fm =
     JObj (map (\<lambda>(k, v). (k, JList (map (\<lambda>us. JList (map unprocessed_json us)) v))) fm)"

text \<open>Lines 72-77; \<open>LogJson\<close> stands for the line \<^verbatim>\<open>json.dumps(v, indent=2)\<close> of the value.\<close>

definition log_failures :: "unit prog" where
  "log_failures =
     seq (\<lambda>s. (if failed_regions s \<noteq> []
                then seq (logger_info ''Failed to enable GuardDuty master: '')
                       (emit (LogJson INFO (JList (map JStr (failed_regions s)))))
                else ret ()) s)
         (\<lambda>s. (if failed_members s \<noteq> []
                then seq (logger_info ''Failed to enable GuardDuty members: '')
                       (emit (LogJson INFO (failed_members_json (failed_members s))))
                else ret ()) s)"

definition handler :: "world \<Rightarrow> (string \<rightharpoonup> string) \<Rightarrow> lambda_context \<Rightarrow> unit prog" where
  "handler w event context =
     (let guardduty_regions = get_available_regions w
      in bnd (assume_role w (gdmaster_account_number w) (role_to_assume w))
           (\<lambda>gdmaster_account_session.
         bnd (create_s3_destination w gdmaster_account_session) (\<lambda>bucket_arn.
         seq (region_loop w gdmaster_account_session bucket_arn guardduty_regions)
        (let responseValue = 120;
             responseData = JObj [(''Data'', JInt responseValue)]
         in seq (cfnresponse w event context ''SUCCESS'' responseData
                   default_physicalResourceId default_noEcho)
              log_failures))))"

section \<open>Observations on the trace\<close>

text \<open>Each function reads off the trace, in order, the requests of one kind with their
  arguments.\<close>

fun enable_master_calls :: "action list \<Rightarrow> (string \<times> string) list" where
  "enable_master_calls [] = []"
| "enable_master_calls (Guardduty_enable_organization_admin_account region admin # t) =
     (region, admin) # enable_master_calls t"
| "enable_master_calls (a # t) = enable_master_calls t"

fun publishing_destination_calls :: "action list \<Rightarrow> (string \<times> string) list" where
  "publishing_destination_calls [] = []"
| "publishing_destination_calls
     (Guardduty_create_publishing_destination region detector ty props token # t) =
     (region, detector) # publishing_destination_calls t"
| "publishing_destination_calls (a # t) = publishing_destination_calls t"

fun create_members_calls :: "action list \<Rightarrow> (string \<times> string \<times> member list) list" where
  "create_members_calls [] = []"
| "create_members_calls (Guardduty_create_members region detector details # t) =
     (region, detector, details) # create_members_calls t"
| "create_members_calls (a # t) = create_members_calls t"

fun create_bucket_calls :: "action list \<Rightarrow> (string \<times> string option) list" where
  "create_bucket_calls [] = []"
| "create_bucket_calls (S3_create_bucket bucket constraint # t) =
     (bucket, constraint) # create_bucket_calls t"
| "create_bucket_calls (a # t) = create_bucket_calls t"

fun describe_key_calls :: "action list \<Rightarrow> (string \<times> string) list" where
  "describe_key_calls [] = []"
| "describe_key_calls (Kms_describe_key region alias # t) = (region, alias) # describe_key_calls t"
| "describe_key_calls (a # t) = describe_key_calls t"

fun create_key_calls :: "action list \<Rightarrow> string list" where
  "create_key_calls [] = []"
| "create_key_calls (Kms_create_key region policy description # t) = region # create_key_calls t"
| "create_key_calls (a # t) = create_key_calls t"

fun http_requests :: "action list \<Rightarrow> (string \<times> string \<times> string) list" where
  "http_requests [] = []"
| "http_requests (Http_request method url body headers # t) = (method, url, body) # http_requests t"
| "http_requests (a # t) = http_requests t"

fun is_Log :: "action \<Rightarrow> bool" where
  "is_Log (Log l m) = True"
| "is_Log (LogJson l j) = True"
| "is_Log a = False"

section \<open>Concrete runs\<close>

text \<open>A world in which every call succeeds: three regions, a trail in \<^verbatim>\<open>us-east-1\<close>, three
  accounts of which the first is the master. The other worlds change single answers.\<close>

definition world0 :: world where
  "world0 = \<lparr>
     gdmaster_account_number = ''111111111111'',
     role_to_assume = ''AWSControlTowerExecution'',
     get_available_regions = [''us-east-1'', ''eu-west-1'', ''ap-south-1''],
     sts_get_caller_identity = Inr ''arn:aws:sts::999999999999:assumed-role/lambda/fn'',
     sts_assume_role = (\<lambda>role_arn. Inr \<lparr>AccessKeyId = ''AKIA'', SecretAccessKey = ''secret'',
                                          SessionToken = ''token''\<rparr>),
     cloudtrail_describe_trails =
       Inr [\<lparr>S3BucketName = ''aws-controltower-logs-123456789012-us-east-1'',
             S3KeyPrefix = Some ''o-abcdefghij'', HomeRegion = ''us-east-1''\<rparr>],
     s3_create_bucket = (\<lambda>bucket constraint. Inr ()),
     s3_put_bucket_policy = (\<lambda>bucket policy. Inr ()),
     s3_put_bucket_encryption = (\<lambda>bucket. Inr ()),
     kms_describe_key = (\<lambda>region. Inr \<lparr>KeyId = ''key-1'', Arn = ''arn:aws:kms:::key/key-1''\<rparr>),
     kms_create_key = (\<lambda>region. Inr \<lparr>KeyId = ''key-2'', Arn = ''arn:aws:kms:::key/key-2''\<rparr>),
     kms_create_alias = (\<lambda>region key_id. Inr ()),
     gd_enable_organization_admin_account = (\<lambda>region. Inr ()),
     gd_disable_organization_admin_account = (\<lambda>region. Inr ()),
     gd_list_detectors = (\<lambda>region. Inr [''detector-1'']),
     gd_create_publishing_destination = (\<lambda>region detector. Inr ()),
     org_list_accounts =
       (\<lambda>region. Inr [\<lparr>Id = ''111111111111'', Email = ''security@example.com''\<rparr>,
                      \<lparr>Id = ''222222222222'', Email = ''dev@example.com''\<rparr>,
                      \<lparr>Id = ''333333333333'', Email = ''prod@example.com''\<rparr>]),
     gd_create_members = (\<lambda>region detector details. Inr []),
     gd_update_organization_configuration = (\<lambda>region detector. Inr ()),
     http_request = (\<lambda>url body. Inr (Some ''OK''))\<rparr>"

definition session0 :: credentials where
  "session0 = \<lparr>AccessKeyId = ''AKIA'', SecretAccessKey = ''secret'', SessionToken = ''token''\<rparr>"

definition properties0 :: destination_properties where
  "properties0 = \<lparr>DestinationArn = ''arn:aws:s3:::aws-controltower-guardduty-123456789012-us-east-1'',
                   KmsKeyArn = ''arn:aws:kms:::key/key-1''\<rparr>"

definition state0 :: state where
  "state0 = \<lparr>trace = [], failed_regions = [], failed_members = []\<rparr>"

definition event0 :: "string \<rightharpoonup> string" where
  "event0 = [''ResponseURL'' \<mapsto> ''https://cloudformation.example/response'',
             ''StackId'' \<mapsto> ''stack-1'',
             ''RequestId'' \<mapsto> ''request-1'',
             ''LogicalResourceId'' \<mapsto> ''EnableGuardDuty'']"

definition context0 :: lambda_context where
  "context0 = \<lparr>log_stream_name = ''2026/11/04/stream''\<rparr>"

text \<open>Master enablement fails in \<^verbatim>\<open>us-east-1\<close>, and the member roster is refused with a client
  error in \<^verbatim>\<open>eu-west-1\<close>.\<close>

definition world_failing :: world where
  "world_failing = world0\<lparr>
     gd_enable_organization_admin_account :=
       (\<lambda>region. if region = ''us-east-1'' then Inl (ClientError ''BadRequestException'')
                  else Inr ()),
     gd_create_members :=
       (\<lambda>region detector details.
          if region = ''eu-west-1'' then Inl (ClientError ''BadRequestException'') else Inr [])\<rparr>"

text \<open>The detector listing succeeds and is empty.\<close>

definition world_no_detector :: world where
  "world_no_detector = world0\<lparr>gd_list_detectors := (\<lambda>region. Inr [])\<rparr>"

text \<open>The member roster is refused with a client error.\<close>

definition world_client_error :: world where
  "world_client_error = world0\<lparr>
     gd_create_members := (\<lambda>region detector details. Inl (ClientError ''BadRequestException''))\<rparr>"

text \<open>Master enablement fails in every region.\<close>

definition world_master_fails :: world where
  "world_master_fails = world0\<lparr>
     gd_enable_organization_admin_account :=
       (\<lambda>region. Inl (ClientError ''AccessDeniedException''))\<rparr>"

text \<open>The trail's home region is a parameter.\<close>

definition world_home :: "string \<Rightarrow> world" where
  "world_home region = world0\<lparr>
     cloudtrail_describe_trails :=
       Inr [\<lparr>S3BucketName = ''aws-controltower-logs-123456789012-us-east-1'',
             S3KeyPrefix = Some ''o-abcdefghij'', HomeRegion = region\<rparr>]\<rparr>"

fun error_log_lines :: "action list \<Rightarrow> string list" where
  "error_log_lines [] = []"
| "error_log_lines (Log ERROR msg # t) = msg # error_log_lines t"
| "error_log_lines (a # t) = error_log_lines t"

text \<open>A program preserves an observation of the state when no run of it changes the
  observation, whether the run returns or raises.\<close>

definition preserves :: "(state \<Rightarrow> 'b) \<Rightarrow> 'a prog \<Rightarrow> bool" where
  "preserves obs m = (\<forall>s. obs (snd (m s)) = obs s)"

text \<open>The destination bucket exists already, so its creation is refused.\<close>

definition world_bucket_exists :: world where
  "world_bucket_exists = world0\<lparr>
     s3_create_bucket := (\<lambda>bucket constraint. Inl (ClientError ''BucketAlreadyOwnedByYou''))\<rparr>"

text \<open>The roster is accepted but one account is reported as unprocessed.\<close>

definition world_unprocessed :: world where
  "world_unprocessed = world0\<lparr>
     gd_create_members :=
       (\<lambda>region detector details.
          Inr [\<lparr>UnprocessedAccountId = ''222222222222'', Result = ''already a member''\<rparr>])\<rparr>"

section \<open>A decoder for the encoder's texts\<close>

text \<open>
  The program never decodes what it sends; the receiver of the callback does. The decoder below
  reads the JSON grammar for the values of type \<open>json\<close> (no fractions or exponents): white
  space between tokens, the escapes of strings, and the members of an object in the order of
  the text. Nested values use fuel, one unit per value and per list element; \<open>json_loads\<close>
  gives more fuel than the text has characters.
\<close>

definition is_ws :: "char \<Rightarrow> bool" where
  "is_ws c = (c = CHR '' '' \<or> c = CHR 0x0A \<or> c = CHR 0x0D \<or> c = CHR 0x09)"

fun skip_ws :: "string \<Rightarrow> string" where
  "skip_ws [] = []"
| "skip_ws (c # cs) = (if is_ws c then skip_ws cs else c # cs)"

definition is_digit :: "char \<Rightarrow> bool" where
  "is_digit c = (48 \<le> (of_char c :: nat) \<and> (of_char c :: nat) \<le> 57)"

definition digit_val :: "char \<Rightarrow> nat" where
  "digit_val c = of_char c - 48"

definition nat_of_digits :: "string \<Rightarrow> nat" where
  "nat_of_digits ds = foldl (\<lambda>acc c. acc * 10 + digit_val c) 0 ds"

definition parse_nat :: "string \<Rightarrow> (nat \<times> string) option" where
  "parse_nat s =
     (let ds = takeWhile is_digit s
      in if ds = [] then None else Some (nat_of_digits ds, dropWhile is_digit s))"

definition parse_int :: "string \<Rightarrow> (int \<times> string) option" where
  "parse_int s =
     (case s of
        [] \<Rightarrow> None
      | c # cs \<Rightarrow>
          if c = CHR ''-'' then map_option (\<lambda>(n, r). (- int n, r)) (parse_nat cs)
          else map_option (\<lambda>(n, r). (int n, r)) (parse_nat s))"

definition hex_val :: "char \<Rightarrow> nat option" where
  "hex_val c =
     (let n = (of_char c :: nat)
      in if 48 \<le> n \<and> n \<le> 57 then Some (n - 48)
         else if 97 \<le> n \<and> n \<le> 102 then Some (n - 87)
         else if 65 \<le> n \<and> n \<le> 70 then Some (n - 55)
         else None)"

definition unescape :: "char \<Rightarrow> char option" where
  "unescape e =
     (if e = dquote then Some dquote
      else if e = backslash then Some backslash
      else if e = CHR ''/'' then Some CHR ''/''
      else if e = CHR ''n'' then Some (CHR 0x0A)
      else if e = CHR ''r'' then Some (CHR 0x0D)
      else if e = CHR ''t'' then Some (CHR 0x09)
      else if e = CHR ''b'' then Some (CHR 0x08)
      else if e = CHR ''f'' then Some (CHR 0x0C)
      else None)"

text \<open>The characters of a string after its opening quote, up to the closing one. An escape
  \<^verbatim>\<open>\uXXXX\<close> of a code point above 255 is outside the strings of the model.\<close>

fun parse_chars :: "string \<Rightarrow> (string \<times> string) option" where
  "parse_chars [] = None"
| "parse_chars (c # cs) =
     (if c = dquote then Some ([], cs)
      else if c = backslash then
        (case cs of
           [] \<Rightarrow> None
         | e # rest \<Rightarrow>
             if e = CHR ''u'' then
               (case rest of
                  h1 # h2 # h3 # h4 # rest' \<Rightarrow>
                    (case (hex_val h1, hex_val h2, hex_val h3, hex_val h4) of
                       (Some a, Some b, Some c', Some d) \<Rightarrow>
                         if ((a * 16 + b) * 16 + c') * 16 + d < 256
                         then map_option
                                (\<lambda>(s, r). (char_of (((a * 16 + b) * 16 + c') * 16 + d) # s, r))
                                (parse_chars rest')
                         else None
                     | _ \<Rightarrow> None)
                | _ \<Rightarrow> None)
             else
               (case unescape e of
                  None \<Rightarrow> None
                | Some ch \<Rightarrow> map_option (\<lambda>(s, r). (ch # s, r)) (parse_chars rest)))
      else if (of_char c :: nat) < 32 then None
      else map_option (\<lambda>(s, r). (c # s, r)) (parse_chars cs))"

fun parse_value :: "nat \<Rightarrow> string \<Rightarrow> (json \<times> string) option"
  and parse_elems :: "nat \<Rightarrow> string \<Rightarrow> (json list \<times> string) option"
  and parse_items :: "nat \<Rightarrow> string \<Rightarrow> ((string \<times> json) list \<times> string) option" where
  "parse_value 0 s = None"
| "parse_value (Suc n) s =
     (case skip_ws s of
        [] \<Rightarrow> None
      | c # cs \<Rightarrow>
          if c = CHR ''n'' then (if take 3 cs = ''ull'' then Some (JNull, drop 3 cs) else None)
          else if c = CHR ''t'' then
            (if take 3 cs = ''rue'' then Some (JBool True, drop 3 cs) else None)
          else if c = CHR ''f'' then
            (if take 4 cs = ''alse'' then Some (JBool False, drop 4 cs) else None)
          else if c = dquote then map_option (\<lambda>(str, r). (JStr str, r)) (parse_chars cs)
          else if c = CHR ''['' then
            (case skip_ws cs of
               [] \<Rightarrow> None
             | d # ds \<Rightarrow>
                 if d = CHR '']'' then Some (JList [], ds)
                 else map_option (\<lambda>(vs, r). (JList vs, r)) (parse_elems n cs))
          else if c = CHR ''{'' then
            (case skip_ws cs of
               [] \<Rightarrow> None
             | d # ds \<Rightarrow>
                 if d = CHR ''}'' then Some (JObj [], ds)
                 else map_option (\<lambda>(kvs, r). (JObj kvs, r)) (parse_items n cs))
          else if c = CHR ''-'' \<or> is_digit c then
            map_option (\<lambda>(i, r). (JInt i, r)) (parse_int (c # cs))
          else None)"
| "parse_elems 0 s = None"
| "parse_elems (Suc n) s =
     (case parse_value n s of
        None \<Rightarrow> None
      | Some (v, r) \<Rightarrow>
          (case skip_ws r of
             [] \<Rightarrow> None
           | c # cs \<Rightarrow>
               if c = CHR '','' then map_option (\<lambda>(vs, r'). (v # vs, r')) (parse_elems n cs)
               else if c = CHR '']'' then Some ([v], cs)
               else None))"
| "parse_items 0 s = None"
| "parse_items (Suc n) s =
     (case skip_ws s of
        [] \<Rightarrow> None
      | q # s1 \<Rightarrow>
          if q \<noteq> dquote then None
          else
            (case parse_chars s1 of
               None \<Rightarrow> None
             | Some (k, s2) \<Rightarrow>
                 (case skip_ws s2 of
                    [] \<Rightarrow> None
                  | colon # s3 \<Rightarrow>
                      if colon \<noteq> CHR '':'' then None
                      else
                        (case parse_value n s3 of
                           None \<Rightarrow> None
                         | Some (v, r) \<Rightarrow>
                             (case skip_ws r of
                                [] \<Rightarrow> None
                              | c # cs \<Rightarrow>
                                  if c = CHR '','' then
                                    map_option (\<lambda>(kvs, r'). ((k, v) # kvs, r'))
                                      (parse_items n cs)
                                  else if c = CHR ''}'' then Some ([(k, v)], cs)
                                  else None)))))"

definition json_loads :: "string \<Rightarrow> json option" where
  "json_loads s =
     (case parse_value (Suc (length s)) s of
        None \<Rightarrow> None
      | Some (v, r) \<Rightarrow> if skip_ws r = [] then Some v else None)"

text \<open>The fuel a value needs.\<close>

fun fuel_value :: "json \<Rightarrow> nat"
  and fuel_elems :: "json list \<Rightarrow> nat"
  and fuel_items :: "(string \<times> json) list \<Rightarrow> nat" where
  "fuel_value JNull = 1"
| "fuel_value (JBool b) = 1"
| "fuel_value (JInt i) = 1"
| "fuel_value (JStr s) = 1"
| "fuel_value (JList xs) = Suc (fuel_elems xs)"
| "fuel_value (JObj kvs) = Suc (fuel_items kvs)"
| "fuel_elems [] = 0"
| "fuel_elems (x # xs) = Suc (max (fuel_value x) (fuel_elems xs))"
| "fuel_items [] = 0"
| "fuel_items ((k, v) # kvs) = Suc (max (fuel_value v) (fuel_items kvs))"

text \<open>What may follow a number: anything but a digit.\<close>

definition no_digit_ahead :: "string \<Rightarrow> bool" where
  "no_digit_ahead rest = (case rest of [] \<Rightarrow> True | c # cs \<Rightarrow> \<not> is_digit c)"

section \<open>Reasoning about programs\<close>

lemma ret_apply: "ret x s = (Inr x, s)"
  by (simp add: ret_def)

lemma raise_apply: "raise e s = (Inl e, s)"
  by (simp add: raise_def)

lemma bnd_apply:
  "bnd m f s = (case m s of (Inl e, s') \<Rightarrow> (Inl e, s') | (Inr x, s') \<Rightarrow> f x s')"
  by (simp add: bnd_def)

lemma seq_apply:
  "seq m k s = (case m s of (Inl e, s') \<Rightarrow> (Inl e, s') | (Inr x, s') \<Rightarrow> k s')"
  by (simp add: seq_def bnd_def)

lemma try_except_apply:
  "try_except m c h s =
     (case m s of
        (Inl e, s') \<Rightarrow> if c e then h e s' else (Inl e, s')
      | (Inr x, s') \<Rightarrow> (Inr x, s'))"
  by (simp add: try_except_def)

lemma emit_apply: "emit a s = (Inr (), s\<lparr>trace := trace s @ [a]\<rparr>)"
  by (simp add: emit_def)

lemma api_call_apply:
  "api_call a r s =
     (case r of
        Inl e \<Rightarrow> (Inl e, s\<lparr>trace := trace s @ [a]\<rparr>)
      | Inr x \<Rightarrow> (Inr x, s\<lparr>trace := trace s @ [a]\<rparr>))"
  by (simp add: api_call_def seq_apply emit_apply ret_apply raise_apply split: sum.splits)

lemmas prog_simps =
  ret_apply raise_apply bnd_apply seq_apply try_except_apply emit_apply api_call_apply
  logger_info_def logger_error_def is_Exception_def getitem_def dict_getitem_def
  failed_members_dict_update_def

lemma preservesD: "preserves obs m \<Longrightarrow> m s = (r, s') \<Longrightarrow> obs s' = obs s"
  by (auto simp: preserves_def dest: spec[of _ s])

lemma preserves_ret: "preserves obs (ret x)"
  by (simp add: preserves_def ret_apply)

lemma preserves_raise: "preserves obs (raise e)"
  by (simp add: preserves_def raise_apply)

lemma preserves_bnd:
  assumes "preserves obs m" and "\<And>x. preserves obs (f x)"
  shows "preserves obs (bnd m f)"
  unfolding preserves_def
proof
  fix s
  obtain r s1 where m: "m s = (r, s1)" by (rule prod.exhaust)
  have o1: "obs s1 = obs s" using preservesD[OF assms(1) m] .
  show "obs (snd (bnd m f s)) = obs s"
  proof (cases r)
    case (Inl e)
    then show ?thesis using m o1 by (simp add: bnd_apply)
  next
    case (Inr x)
    obtain r2 s2 where f: "f x s1 = (r2, s2)" by (rule prod.exhaust)
    have "obs s2 = obs s1" using preservesD[OF assms(2) f] .
    then show ?thesis using m o1 Inr f by (simp add: bnd_apply)
  qed
qed

lemma preserves_seq:
  assumes "preserves obs m" and "preserves obs k"
  shows "preserves obs (seq m k)"
  unfolding seq_def using assms by (intro preserves_bnd)

lemma preserves_try_except:
  assumes "preserves obs m" and "\<And>e. preserves obs (h e)"
  shows "preserves obs (try_except m c h)"
  unfolding preserves_def
proof
  fix s
  obtain r s1 where m: "m s = (r, s1)" by (rule prod.exhaust)
  have o1: "obs s1 = obs s" using preservesD[OF assms(1) m] .
  show "obs (snd (try_except m c h s)) = obs s"
  proof (cases r)
    case (Inr x)
    then show ?thesis using m o1 by (simp add: try_except_apply)
  next
    case (Inl e)
    obtain r2 s2 where f: "h e s1 = (r2, s2)" by (rule prod.exhaust)
    have "obs s2 = obs s1" using preservesD[OF assms(2) f] .
    then show ?thesis using m o1 Inl f by (simp add: try_except_apply)
  qed
qed

lemma preserves_emit:
  assumes "\<And>s. obs (s\<lparr>trace := trace s @ [a]\<rparr>) = obs s"
  shows "preserves obs (emit a)"
  using assms by (simp add: preserves_def emit_apply)

lemma preserves_api_call:
  assumes "\<And>s. obs (s\<lparr>trace := trace s @ [a]\<rparr>) = obs s"
  shows "preserves obs (api_call a r)"
  using assms by (simp add: preserves_def api_call_apply split: sum.splits)

lemma preserves_logger_info:
  assumes "\<And>s. obs (s\<lparr>trace := trace s @ [Log INFO msg]\<rparr>) = obs s"
  shows "preserves obs (logger_info msg)"
  unfolding logger_info_def using assms by (rule preserves_emit)

lemma preserves_logger_error:
  assumes "\<And>s. obs (s\<lparr>trace := trace s @ [Log ERROR msg]\<rparr>) = obs s"
  shows "preserves obs (logger_error msg)"
  unfolding logger_error_def using assms by (rule preserves_emit)

lemma preserves_getitem: "preserves obs (getitem xs i)"
  by (simp add: getitem_def preserves_ret preserves_raise)

lemma preserves_dict_getitem: "preserves obs (dict_getitem d k)"
  by (simp add: dict_getitem_def preserves_ret preserves_raise split: option.splits)

lemma preserves_if:
  assumes "c \<Longrightarrow> preserves obs a" and "\<not> c \<Longrightarrow> preserves obs b"
  shows "preserves obs (if c then a else b)"
  using assms by simp

lemma preserves_case_option:
  assumes "x = None \<Longrightarrow> preserves obs a" and "\<And>v. x = Some v \<Longrightarrow> preserves obs (b v)"
  shows "preserves obs (case x of None \<Rightarrow> a | Some v \<Rightarrow> b v)"
  using assms by (cases x) simp_all

lemma failed_members_dict_update_trace:
  "preserves (\<lambda>s. f (trace s)) (failed_members_dict_update k v)"
  by (simp add: preserves_def failed_members_dict_update_def)

lemmas preserves_intros =
  preserves_ret preserves_raise preserves_bnd preserves_seq preserves_try_except
  preserves_api_call preserves_logger_info preserves_logger_error preserves_getitem
  preserves_dict_getitem preserves_if preserves_case_option preserves_emit
  failed_members_dict_update_trace

lemmas run_defs =
  world0_def session0_def properties0_def state0_def event0_def context0_def
  assume_role_def create_s3_destination_def create_bucket_and_key_def create_kms_key_def
  region_body_def enable_gd_master_def enable_gd_member_def client_error_handler_def
  startswith_def allowed_regions_def Let_def prog_simps

subsection \<open>The projections distribute over concatenation\<close>

lemma http_requests_append: "http_requests (xs @ ys) = http_requests xs @ http_requests ys"
  by (induction xs rule: http_requests.induct) auto

lemma enable_master_calls_append:
  "enable_master_calls (xs @ ys) = enable_master_calls xs @ enable_master_calls ys"
  by (induction xs rule: enable_master_calls.induct) auto

lemma http_requests_logs: "list_all is_Log logs \<Longrightarrow> http_requests logs = []"
  by (induction logs rule: http_requests.induct) auto

subsection \<open>The region loop\<close>

lemma enable_gd_master_ok: "fst (enable_gd_master w r s) = Inr ()"
  by (simp add: enable_gd_master_def prog_simps split: sum.splits)

lemma enable_gd_master_calls:
  "enable_master_calls (trace (snd (enable_gd_master w r s))) =
     enable_master_calls (trace s) @ [(r, gdmaster_account_number w)]"
  by (simp add: enable_gd_master_def prog_simps enable_master_calls_append split: sum.splits)

lemma enable_gd_member_calls:
  "preserves (\<lambda>s. enable_master_calls (trace s)) (enable_gd_member w sess r p)"
  unfolding enable_gd_member_def Let_def client_error_handler_def
  by (intro preserves_intros) (simp_all add: enable_master_calls_append)

lemma region_body_ok: "fst (region_body w sess arn region s) = Inr ()"
  by (simp add: region_body_def prog_simps split: sum.splits prod.splits)

lemma region_body_calls:
  "enable_master_calls (trace (snd (region_body w sess arn region s))) =
     enable_master_calls (trace s) @ [(region, gdmaster_account_number w)]"
proof -
  obtain r1 s1 where m: "enable_gd_master w region s = (r1, s1)" by (rule prod.exhaust)
  have r1: "r1 = Inr ()" using enable_gd_master_ok[of w region s] m by simp
  have c1: "enable_master_calls (trace s1) =
              enable_master_calls (trace s) @ [(region, gdmaster_account_number w)]"
    using enable_gd_master_calls[of w region s] m by simp
  obtain r2 s2 where e: "enable_gd_member w sess region arn s1 = (r2, s2)" by (rule prod.exhaust)
  have c2: "enable_master_calls (trace s2) = enable_master_calls (trace s1)"
    using preservesD[OF enable_gd_member_calls e] .
  show ?thesis using m r1 c1 e c2
    by (simp add: region_body_def prog_simps enable_master_calls_append split: sum.splits)
qed

lemma region_loop_ok: "fst (region_loop w sess arn regions s) = Inr ()"
proof (induction regions arbitrary: s)
  case Nil
  then show ?case by (simp add: ret_apply)
next
  case (Cons region regions)
  obtain r1 s1 where b: "region_body w sess arn region s = (r1, s1)" by (rule prod.exhaust)
  have "r1 = Inr ()" using region_body_ok[of w sess arn region s] b by simp
  then show ?case using b Cons.IH[of s1] by (simp add: seq_apply)
qed

text \<open>
  C2. Whatever the services answer, the loop over a list of regions returns normally, and the
  requests to enable the master that it makes are one per region, in the order of the list:
  an exception raised for one region is caught in the body and the next region is attempted.
\<close>

theorem region_loop_attempts_every_region:
  "fst (region_loop w sess arn regions s) = Inr () \<and>
   enable_master_calls (trace (snd (region_loop w sess arn regions s))) =
     enable_master_calls (trace s) @ map (\<lambda>region. (region, gdmaster_account_number w)) regions"
proof (induction regions arbitrary: s)
  case Nil
  then show ?case by (simp add: ret_apply)
next
  case (Cons region regions)
  obtain r1 s1 where b: "region_body w sess arn region s = (r1, s1)" by (rule prod.exhaust)
  have r1: "r1 = Inr ()" using region_body_ok[of w sess arn region s] b by simp
  have c1: "enable_master_calls (trace s1) =
              enable_master_calls (trace s) @ [(region, gdmaster_account_number w)]"
    using region_body_calls[of w sess arn region s] b by simp
  show ?case using b r1 c1 Cons.IH[of s1] by (simp add: seq_apply)
qed

text \<open>In \<open>world_failing\<close> the master cannot be enabled in the first region and the roster is
  refused in the second; all three regions are attempted and the second one's exception is
  logged by the loop.\<close>

theorem region_loop_attempts_every_region_witness:
  "fst (region_loop world_failing session0 properties0
          [''us-east-1'', ''eu-west-1'', ''ap-south-1''] state0) = Inr () \<and>
   enable_master_calls (trace (snd (region_loop world_failing session0 properties0
          [''us-east-1'', ''eu-west-1'', ''ap-south-1''] state0))) =
     [(''us-east-1'', ''111111111111''), (''eu-west-1'', ''111111111111''),
      (''ap-south-1'', ''111111111111'')] \<and>
   error_log_lines (trace (snd (region_loop world_failing session0 properties0
          [''us-east-1'', ''eu-west-1'', ''ap-south-1''] state0))) =
     [''Error to enable master or member in region eu-west-1'']"
  using region_loop_attempts_every_region[of world_failing session0 properties0
          "[''us-east-1'', ''eu-west-1'', ''ap-south-1'']" state0]
  by (simp add: world_failing_def run_defs)

subsection \<open>No function but \<open>cfnresponse\<close> makes an HTTP request\<close>

lemma assume_role_http: "preserves (\<lambda>s. http_requests (trace s)) (assume_role w a r)"
  unfolding assume_role_def Let_def
  by (intro preserves_intros) (simp_all add: http_requests_append)

lemma create_kms_key_http: "preserves (\<lambda>s. http_requests (trace s)) (create_kms_key w sess r)"
  unfolding create_kms_key_def Let_def
  by (intro preserves_intros) (simp_all add: http_requests_append)

lemma create_bucket_and_key_http:
  "preserves (\<lambda>s. http_requests (trace s)) (create_bucket_and_key w sess b r)"
  unfolding create_bucket_and_key_def Let_def
  by (intro preserves_intros create_kms_key_http) (simp_all add: http_requests_append)

lemma create_s3_destination_http:
  "preserves (\<lambda>s. http_requests (trace s)) (create_s3_destination w sess)"
  unfolding create_s3_destination_def Let_def
  by (intro preserves_intros create_bucket_and_key_http assume_role_http)
     (simp_all add: http_requests_append)

lemma enable_gd_master_http: "preserves (\<lambda>s. http_requests (trace s)) (enable_gd_master w r)"
  unfolding enable_gd_master_def Let_def
  by (intro preserves_intros) (simp_all add: http_requests_append)

lemma enable_gd_member_http:
  "preserves (\<lambda>s. http_requests (trace s)) (enable_gd_member w sess r p)"
  unfolding enable_gd_member_def Let_def client_error_handler_def
  by (intro preserves_intros) (simp_all add: http_requests_append)

lemma region_body_http:
  "preserves (\<lambda>s. http_requests (trace s)) (region_body w sess arn region)"
  unfolding region_body_def
  by (intro preserves_intros enable_gd_master_http enable_gd_member_http)
     (simp_all add: http_requests_append)

lemma region_loop_http:
  "preserves (\<lambda>s. http_requests (trace s)) (region_loop w sess arn regions)"
  by (induction regions) (auto intro!: preserves_intros region_body_http)

subsection \<open>The end of the handler\<close>

lemma log_failures_trace:
  "\<exists>logs. log_failures s = (Inr (), s\<lparr>trace := trace s @ logs\<rparr>) \<and> list_all is_Log logs"
proof -
  define l1 where
    "l1 = (if failed_regions s \<noteq> []
           then [Log INFO ''Failed to enable GuardDuty master: '',
                 LogJson INFO (JList (map JStr (failed_regions s)))]
           else [])"
  define l2 where
    "l2 = (if failed_members s \<noteq> []
           then [Log INFO ''Failed to enable GuardDuty members: '',
                 LogJson INFO (failed_members_json (failed_members s))]
           else [])"
  have "log_failures s = (Inr (), s\<lparr>trace := trace s @ (l1 @ l2)\<rparr>)"
    by (simp add: log_failures_def prog_simps l1_def l2_def)
  moreover have "list_all is_Log (l1 @ l2)"
    by (simp add: l1_def l2_def)
  ultimately show ?thesis by blast
qed

text \<open>With the four keys in the event, \<open>cfnresponse\<close> makes one request, a \<^verbatim>\<open>PUT\<close> of the encoded
  body to the response URL, logs a failure of the transport if there is one, and returns.\<close>

lemma cfnresponse_trace:
  assumes "event ''StackId'' = Some stack_id" and "event ''RequestId'' = Some request_id"
    and "event ''LogicalResourceId'' = Some logical_id" and "event ''ResponseURL'' = Some url"
  shows "\<exists>logs.
           cfnresponse w event ctx status data pid ne s =
             (Inr (),
              s\<lparr>trace := trace s @
                 Http_request ''PUT'' url
                   (json_dumps (responseBody (log_stream_name ctx) stack_id request_id
                                  logical_id status data pid ne))
                   [(''content-type'', []),
                    (''content-length'',
                     str_nat (length (json_dumps (responseBody (log_stream_name ctx) stack_id
                                                    request_id logical_id status data pid ne))))]
                 # logs\<rparr>) \<and>
           list_all is_Log logs"
proof -
  let ?body = "json_dumps (responseBody (log_stream_name ctx) stack_id request_id logical_id
                             status data pid ne)"
  define logs where
    "logs = (case http_request w url ?body of
               Inl e \<Rightarrow>
                 [Log ERROR (''cfnresponse(..) failed executing requests.put(..): '' @ exn_str e)]
             | Inr None \<Rightarrow>
                 [Log ERROR (''cfnresponse(..) failed executing requests.put(..): ''
                             @ exn_str none_reason_error)]
             | Inr (Some r) \<Rightarrow> [])"
  have "cfnresponse w event ctx status data pid ne s =
          (Inr (),
           s\<lparr>trace := trace s @
              Http_request ''PUT'' url ?body
                [(''content-type'', []), (''content-length'', str_nat (length ?body))] # logs\<rparr>)"
    using assms
    by (simp add: cfnresponse_def Let_def prog_simps logs_def split: sum.splits option.splits)
  moreover have "list_all is_Log logs"
    by (simp add: logs_def split: sum.splits option.splits)
  ultimately show ?thesis by blast
qed

text \<open>
  C1. When the two steps before the loop return (the master session is assumed and the
  destination is provisioned), the loop runs to completion whatever the regions answer, and the
  handler then reports once: the trace of the whole run holds exactly one new HTTP request, a
  \<^verbatim>\<open>PUT\<close> to the response URL whose body is the encoding of the response with status
  \<^verbatim>\<open>SUCCESS\<close> and data \<^verbatim>\<open>{'Data': 120}\<close>; it comes after everything the loop did, and only log
  lines follow it. The event is taken to hold the four keys the reporter reads.
\<close>

theorem handler_reports_success_once:
  assumes "assume_role w (gdmaster_account_number w) (role_to_assume w) s = (Inr sess, s1)"
    and "create_s3_destination w sess s1 = (Inr arn, s2)"
    and "event ''StackId'' = Some stack_id" and "event ''RequestId'' = Some request_id"
    and "event ''LogicalResourceId'' = Some logical_id" and "event ''ResponseURL'' = Some url"
  shows "fst (handler w event ctx s) = Inr () \<and>
         http_requests (trace (snd (handler w event ctx s))) =
           http_requests (trace s) @
           [(''PUT'', url,
             json_dumps (responseBody (log_stream_name ctx) stack_id request_id logical_id
                           ''SUCCESS'' (JObj [(''Data'', JInt 120)]) None False))] \<and>
         (\<exists>headers logs.
            trace (snd (handler w event ctx s)) =
              trace (snd (region_loop w sess arn (get_available_regions w) s2)) @
              Http_request ''PUT'' url
                (json_dumps (responseBody (log_stream_name ctx) stack_id request_id logical_id
                               ''SUCCESS'' (JObj [(''Data'', JInt 120)]) None False))
                headers # logs \<and>
            list_all is_Log logs)"
proof -
  let ?body = "json_dumps (responseBody (log_stream_name ctx) stack_id request_id logical_id
                             ''SUCCESS'' (JObj [(''Data'', JInt 120)]) None False)"
  let ?headers = "[(''content-type'', []), (''content-length'', str_nat (length ?body))]"
  obtain r3 s3 where loop: "region_loop w sess arn (get_available_regions w) s2 = (r3, s3)"
    by (rule prod.exhaust)
  have r3: "r3 = Inr ()"
    using region_loop_ok[of w sess arn "get_available_regions w" s2] loop by simp
  obtain logs1 where
    cfn: "cfnresponse w event ctx ''SUCCESS'' (JObj [(''Data'', JInt 120)]) None False s3 =
            (Inr (), s3\<lparr>trace := trace s3 @ Http_request ''PUT'' url ?body ?headers # logs1\<rparr>)"
    and logs1: "list_all is_Log logs1"
    using cfnresponse_trace[OF assms(3-6), of w ctx "''SUCCESS''" "JObj [(''Data'', JInt 120)]"
            None False s3]
    by blast
  let ?s4 = "s3\<lparr>trace := trace s3 @ Http_request ''PUT'' url ?body ?headers # logs1\<rparr>"
  obtain logs2 where
    lf: "log_failures ?s4 = (Inr (), ?s4\<lparr>trace := trace ?s4 @ logs2\<rparr>)"
    and logs2: "list_all is_Log logs2"
    using log_failures_trace[of ?s4] by blast
  have h: "handler w event ctx s = (Inr (), ?s4\<lparr>trace := trace ?s4 @ logs2\<rparr>)"
    using assms(1,2) loop r3 cfn lf
    by (simp add: handler_def Let_def bnd_apply seq_apply default_physicalResourceId_def
          default_noEcho_def)
  have p1: "http_requests (trace s1) = http_requests (trace s)"
    using preservesD[OF assume_role_http assms(1)] .
  have p2: "http_requests (trace s2) = http_requests (trace s1)"
    using preservesD[OF create_s3_destination_http assms(2)] .
  have p3: "http_requests (trace s3) = http_requests (trace s2)"
    using preservesD[OF region_loop_http loop] .
  have a: "fst (handler w event ctx s) = Inr ()"
    using h by simp
  have b: "http_requests (trace (snd (handler w event ctx s))) =
             http_requests (trace s) @ [(''PUT'', url, ?body)]"
    using h p1 p2 p3 logs1 logs2 by (simp add: http_requests_append http_requests_logs)
  have c: "trace (snd (handler w event ctx s)) =
             trace (snd (region_loop w sess arn (get_available_regions w) s2)) @
             Http_request ''PUT'' url ?body ?headers # (logs1 @ logs2)"
    using h loop by simp
  have d: "list_all is_Log (logs1 @ logs2)"
    using logs1 logs2 by simp
  show ?thesis using a b c d by blast
qed

text \<open>The run in \<open>world_failing\<close>: two of the three regions fail, and the one request is the
  report of success.\<close>

theorem handler_reports_success_once_witness:
  "fst (handler world_failing event0 context0 state0) = Inr () \<and>
   http_requests (trace (snd (handler world_failing event0 context0 state0))) =
     [(''PUT'', ''https://cloudformation.example/response'',
       json_dumps (responseBody ''2026/11/04/stream'' ''stack-1'' ''request-1''
                     ''EnableGuardDuty'' ''SUCCESS'' (JObj [(''Data'', JInt 120)]) None False))] \<and>
   error_log_lines (trace (snd (handler world_failing event0 context0 state0))) =
     [''Error to enable master or member in region eu-west-1'']"
proof -
  define s1 where
    "s1 = snd (assume_role world_failing (gdmaster_account_number world_failing)
                 (role_to_assume world_failing) state0)"
  define s2 where "s2 = snd (create_s3_destination world_failing session0 s1)"
  have a: "assume_role world_failing (gdmaster_account_number world_failing)
             (role_to_assume world_failing) state0 = (Inr session0, s1)"
    unfolding s1_def by (simp add: world_failing_def run_defs)
  have b: "create_s3_destination world_failing session0 s1 = (Inr properties0, s2)"
    unfolding s2_def s1_def by (simp add: world_failing_def run_defs)
  have e: "event0 ''StackId'' = Some ''stack-1''" "event0 ''RequestId'' = Some ''request-1''"
    "event0 ''LogicalResourceId'' = Some ''EnableGuardDuty''"
    "event0 ''ResponseURL'' = Some ''https://cloudformation.example/response''"
    by (simp_all add: event0_def)
  have l: "error_log_lines (trace (snd (handler world_failing event0 context0 state0))) =
             [''Error to enable master or member in region eu-west-1'']"
    by (simp add: handler_def cfnresponse_def log_failures_def default_physicalResourceId_def
          default_noEcho_def world_failing_def run_defs)
  show ?thesis
    using handler_reports_success_once[OF a b e, of context0] l
    by (simp add: context0_def state0_def)
qed

subsection \<open>Other projections\<close>

lemma create_members_calls_append:
  "create_members_calls (xs @ ys) = create_members_calls xs @ create_members_calls ys"
  by (induction xs rule: create_members_calls.induct) auto

lemma publishing_destination_calls_append:
  "publishing_destination_calls (xs @ ys) =
     publishing_destination_calls xs @ publishing_destination_calls ys"
  by (induction xs rule: publishing_destination_calls.induct) auto

lemma create_bucket_calls_append:
  "create_bucket_calls (xs @ ys) = create_bucket_calls xs @ create_bucket_calls ys"
  by (induction xs rule: create_bucket_calls.induct) auto

lemma describe_key_calls_append:
  "describe_key_calls (xs @ ys) = describe_key_calls xs @ describe_key_calls ys"
  by (induction xs rule: describe_key_calls.induct) auto

lemma create_key_calls_append:
  "create_key_calls (xs @ ys) = create_key_calls xs @ create_key_calls ys"
  by (induction xs rule: create_key_calls.induct) auto

subsection \<open>The member roster\<close>

lemma build_details_length:
  "length (build_details master accounts) + count_list (map Id accounts) master = length accounts"
  by (induction accounts) auto

lemma build_details_no_master: "master \<notin> set (map AccountId (build_details master accounts))"
  by (induction accounts) auto

lemma build_details_filter:
  "build_details master accounts =
     map (\<lambda>a. \<lparr>AccountId = Id a, MemberEmail = Email a\<rparr>) (filter (\<lambda>a. Id a \<noteq> master) accounts)"
  by (induction accounts) auto

text \<open>
  C7. When the detector is found, the destination is configured and the accounts are listed,
  the member enroller submits one roster: the listed accounts without the master, in order.
  If exactly one of the \<open>N\<close> listed accounts has the master's id, the roster has \<open>N - 1\<close>
  entries and none of them has the master's id.
\<close>

theorem roster_excludes_master:
  assumes "gd_list_detectors w region = Inr (detector_id # ds)"
    and "gd_create_publishing_destination w region detector_id = Inr ()"
    and "org_list_accounts w region = Inr accounts"
    and "count_list (map Id accounts) (gdmaster_account_number w) = 1"
  shows "create_members_calls (trace (snd (enable_gd_member w sess region props s))) =
           create_members_calls (trace s) @
           [(region, detector_id, build_details (gdmaster_account_number w) accounts)] \<and>
         length (build_details (gdmaster_account_number w) accounts) = length accounts - 1 \<and>
         0 < length accounts \<and>
         gdmaster_account_number w \<notin>
           set (map AccountId (build_details (gdmaster_account_number w) accounts))"
proof -
  have calls: "create_members_calls (trace (snd (enable_gd_member w sess region props s))) =
           create_members_calls (trace s) @
           [(region, detector_id, build_details (gdmaster_account_number w) accounts)]"
    using assms(1-3)
    by (simp add: enable_gd_member_def client_error_handler_def Let_def prog_simps
          create_members_calls_append split: sum.splits)
  have len: "length (build_details (gdmaster_account_number w) accounts) + 1 = length accounts"
    using build_details_length[of "gdmaster_account_number w" accounts] assms(4) by simp
  have n1: "length (build_details (gdmaster_account_number w) accounts) = length accounts - 1"
    using len by arith
  have pos: "0 < length accounts"
    using len by arith
  show ?thesis
    using calls n1 pos build_details_no_master[of "gdmaster_account_number w" accounts]
    by blast
qed

theorem roster_excludes_master_witness:
  "org_list_accounts world0 ''eu-west-1'' =
     Inr [\<lparr>Id = ''111111111111'', Email = ''security@example.com''\<rparr>,
          \<lparr>Id = ''222222222222'', Email = ''dev@example.com''\<rparr>,
          \<lparr>Id = ''333333333333'', Email = ''prod@example.com''\<rparr>] \<and>
   count_list [''111111111111'', ''222222222222'', ''333333333333'']
     (gdmaster_account_number world0) = 1 \<and>
   create_members_calls
     (trace (snd (enable_gd_member world0 session0 ''eu-west-1'' properties0 state0))) =
     [(''eu-west-1'', ''detector-1'',
       [\<lparr>AccountId = ''222222222222'', MemberEmail = ''dev@example.com''\<rparr>,
        \<lparr>AccountId = ''333333333333'', MemberEmail = ''prod@example.com''\<rparr>])] \<and>
   length (build_details ''111111111111''
             [\<lparr>Id = ''111111111111'', Email = ''security@example.com''\<rparr>,
              \<lparr>Id = ''222222222222'', Email = ''dev@example.com''\<rparr>,
              \<lparr>Id = ''333333333333'', Email = ''prod@example.com''\<rparr>]) = 2"
proof -
  have a: "gd_list_detectors world0 ''eu-west-1'' = Inr (''detector-1'' # [])"
    and b: "gd_create_publishing_destination world0 ''eu-west-1'' ''detector-1'' = Inr ()"
    and c: "org_list_accounts world0 ''eu-west-1'' =
              Inr [\<lparr>Id = ''111111111111'', Email = ''security@example.com''\<rparr>,
                   \<lparr>Id = ''222222222222'', Email = ''dev@example.com''\<rparr>,
                   \<lparr>Id = ''333333333333'', Email = ''prod@example.com''\<rparr>]"
    and d: "count_list (map Id [\<lparr>Id = ''111111111111'', Email = ''security@example.com''\<rparr>,
                   \<lparr>Id = ''222222222222'', Email = ''dev@example.com''\<rparr>,
                   \<lparr>Id = ''333333333333'', Email = ''prod@example.com''\<rparr>])
              (gdmaster_account_number world0) = 1"
    by (simp_all add: world0_def)
  show ?thesis
    using roster_excludes_master[OF a b c d, of session0 properties0 state0] c d
    by (simp add: world0_def state0_def)
qed

subsection \<open>Provisioning the destination\<close>

text \<open>The answer of \<open>assume_role\<close> does not depend on the state it starts from.\<close>

lemma assume_role_result:
  "fst (assume_role w a r s) = fst (assume_role w a r s')"
  by (simp add: assume_role_def Let_def prog_simps split: sum.splits)

lemma assume_role_buckets: "preserves (\<lambda>s. create_bucket_calls (trace s)) (assume_role w a r)"
  unfolding assume_role_def Let_def
  by (intro preserves_intros) (simp_all add: create_bucket_calls_append)

lemma create_kms_key_buckets:
  "preserves (\<lambda>s. create_bucket_calls (trace s)) (create_kms_key w sess r)"
  unfolding create_kms_key_def Let_def
  by (intro preserves_intros) (simp_all add: create_bucket_calls_append)

text \<open>The location constraint of line 406-425, as a function of the home region.\<close>

lemma try_bucket_then_key:
  "\<exists>arn s'.
     try_except (seq (api_call (S3_create_bucket b c) x) (create_kms_key w sess kr)) is_Exception
       (\<lambda>e. seq (logger_info m1) (seq (logger_error m2) (ret []))) s = (Inr arn, s') \<and>
     create_bucket_calls (trace s') = create_bucket_calls (trace s) @ [(b, c)]"
proof (cases x)
  case (Inl e)
  then show ?thesis
    by (simp add: prog_simps create_bucket_calls_append)
next
  case (Inr u)
  obtain r1 s1 where k: "create_kms_key w sess kr (s\<lparr>trace := trace s @ [S3_create_bucket b c]\<rparr>)
                           = (r1, s1)"
    by (rule prod.exhaust)
  have c1: "create_bucket_calls (trace s1) = create_bucket_calls (trace s) @ [(b, c)]"
    using preservesD[OF create_kms_key_buckets k] by (simp add: create_bucket_calls_append)
  show ?thesis
    using Inr k c1 by (cases r1) (simp_all add: prog_simps create_bucket_calls_append)
qed

lemma create_bucket_and_key_calls:
  "\<exists>arn s'.
     create_bucket_and_key w sess b region s = (Inr arn, s') \<and>
     create_bucket_calls (trace s') =
       create_bucket_calls (trace s) @
       [(b, if region \<in> set allowed_regions then Some region
            else if startswith region ''eu'' then Some ''EU'' else None)]"
proof (cases "region \<in> set allowed_regions")
  case True
  then show ?thesis
    unfolding create_bucket_and_key_def
    by (simp only: if_True) (rule try_bucket_then_key)
next
  case False
  show ?thesis
  proof (cases "startswith region ''eu''")
    case True
    with False show ?thesis
      unfolding create_bucket_and_key_def
      by (simp only: if_True if_False) (rule try_bucket_then_key)
  next
    case nostart: False
    with False show ?thesis
      unfolding create_bucket_and_key_def
      by (simp only: if_False) (rule try_bucket_then_key)
  qed
qed

text \<open>What a returning run of \<open>create_s3_destination\<close> went through.\<close>

lemma create_s3_destination_returns:
  assumes "create_s3_destination w sess s = (Inr props, s')"
  shows "\<exists>t ts creds s1 s2 arn.
           cloudtrail_describe_trails w = Inr (t # ts) \<and>
           assume_role w (str_split CHR ''-'' (S3BucketName t) ! 3) (role_to_assume w)
             (s\<lparr>trace := trace s @
                  [Cloudtrail_describe_trails [''aws-controltower-BaselineCloudTrail'']]\<rparr>) =
             (Inr creds, s1) \<and>
           create_bucket_and_key w sess (str_replace ''logs'' ''guardduty'' (S3BucketName t))
             (HomeRegion t) s1 = (Inr arn, s2) \<and>
           props = \<lparr>DestinationArn =
                      ''arn:aws:s3:::'' @ str_replace ''logs'' ''guardduty'' (S3BucketName t),
                    KmsKeyArn = arn\<rparr> \<and>
           trace s' = trace s2 @
             [S3_put_bucket_policy (str_replace ''logs'' ''guardduty'' (S3BucketName t))
                (json_dumps (bucket_policy (str_replace ''logs'' ''guardduty'' (S3BucketName t))
                               arn)),
              S3_put_bucket_encryption (str_replace ''logs'' ''guardduty'' (S3BucketName t))
                ''AES256'']"
proof -
  from assms obtain trails where d: "cloudtrail_describe_trails w = Inr trails"
    by (cases "cloudtrail_describe_trails w")
       (simp_all add: create_s3_destination_def prog_simps)
  from assms d obtain t ts where tl: "trails = t # ts"
    by (cases trails) (simp_all add: create_s3_destination_def prog_simps)
  show ?thesis
    using assms d tl
    by (auto simp: create_s3_destination_def Let_def prog_simps
             split: sum.splits option.splits prod.splits if_splits)
qed

text \<open>
  C9. When the trail is described, has a key prefix and a bucket name of at least four parts,
  and the role of the log account is assumed, the destination provisioner requests the
  creation of one bucket. The request carries the home region as its location constraint if
  the region is one of the ten allowed ones, otherwise \<^verbatim>\<open>EU\<close> if the region's name starts with
  \<^verbatim>\<open>eu\<close>, and otherwise no constraint.
\<close>

theorem bucket_location_constraint:
  assumes "cloudtrail_describe_trails w = Inr (t # ts)"
    and "S3KeyPrefix t = Some bucket_prefix"
    and "3 < length (str_split CHR ''-'' (S3BucketName t))"
    and "fst (assume_role w (str_split CHR ''-'' (S3BucketName t) ! 3) (role_to_assume w) s)
           = Inr creds"
  shows "create_bucket_calls (trace (snd (create_s3_destination w sess s))) =
           create_bucket_calls (trace s) @
           [(str_replace ''logs'' ''guardduty'' (S3BucketName t),
             if HomeRegion t \<in> set allowed_regions then Some (HomeRegion t)
             else if startswith (HomeRegion t) ''eu'' then Some ''EU''
             else None)]"
proof -
  let ?s0 = "s\<lparr>trace := trace s @
                  [Cloudtrail_describe_trails [''aws-controltower-BaselineCloudTrail'']]\<rparr>"
  let ?acct = "str_split CHR ''-'' (S3BucketName t) ! 3"
  let ?b = "str_replace ''logs'' ''guardduty'' (S3BucketName t)"
  let ?c = "if HomeRegion t \<in> set allowed_regions then Some (HomeRegion t)
            else if startswith (HomeRegion t) ''eu'' then Some ''EU'' else None"
  obtain r1 s1 where ar: "assume_role w ?acct (role_to_assume w) ?s0 = (r1, s1)"
    by (rule prod.exhaust)
  have r1: "r1 = Inr creds"
    using assume_role_result[of w ?acct "role_to_assume w" ?s0 s] ar assms(4) by simp
  have b1: "create_bucket_calls (trace s1) = create_bucket_calls (trace s)"
    using preservesD[OF assume_role_buckets ar] by (simp add: create_bucket_calls_append)
  obtain arn s2 where
    cb: "create_bucket_and_key w sess ?b (HomeRegion t) s1 = (Inr arn, s2)"
    and b2: "create_bucket_calls (trace s2) = create_bucket_calls (trace s1) @ [(?b, ?c)]"
    using create_bucket_and_key_calls[of w sess ?b "HomeRegion t" s1] by blast
  show ?thesis
    using assms(1-3) ar r1 cb b1 b2
    by (simp add: create_s3_destination_def Let_def prog_simps create_bucket_calls_append
          split: sum.splits)
qed

text \<open>Home regions \<^verbatim>\<open>ap-south-1\<close> (allowed), \<^verbatim>\<open>eu-west-3\<close> (not allowed, starts with \<^verbatim>\<open>eu\<close>) and
  \<^verbatim>\<open>us-east-1\<close> (neither).\<close>

theorem bucket_location_constraint_witness:
  "create_bucket_calls
     (trace (snd (create_s3_destination (world_home ''ap-south-1'') session0 state0))) =
     [(''aws-controltower-guardduty-123456789012-us-east-1'', Some ''ap-south-1'')] \<and>
   create_bucket_calls
     (trace (snd (create_s3_destination (world_home ''eu-west-3'') session0 state0))) =
     [(''aws-controltower-guardduty-123456789012-us-east-1'', Some ''EU'')] \<and>
   create_bucket_calls
     (trace (snd (create_s3_destination (world_home ''us-east-1'') session0 state0))) =
     [(''aws-controltower-guardduty-123456789012-us-east-1'', None)]"
proof -
  let ?t = "\<lambda>region. \<lparr>S3BucketName = ''aws-controltower-logs-123456789012-us-east-1'',
                        S3KeyPrefix = Some ''o-abcdefghij'', HomeRegion = region\<rparr>"
  have a: "cloudtrail_describe_trails (world_home region) = Inr (?t region # [])" for region
    by (simp add: world_home_def world0_def)
  have b: "S3KeyPrefix (?t region) = Some ''o-abcdefghij''" for region
    by simp
  have c: "3 < length (str_split CHR ''-'' (S3BucketName (?t region)))" for region
    by simp
  have d: "fst (assume_role (world_home region)
                  (str_split CHR ''-'' (S3BucketName (?t region)) ! 3)
                  (role_to_assume (world_home region)) state0) = Inr session0" for region
    by (simp add: world_home_def run_defs)
  show ?thesis
    using bucket_location_constraint[OF a b c d, of "''ap-south-1''" session0]
      bucket_location_constraint[OF a b c d, of "''eu-west-3''" session0]
      bucket_location_constraint[OF a b c d, of "''us-east-1''" session0]
    by (simp add: state0_def allowed_regions_def startswith_def)
qed

subsection \<open>\<open>str_replace\<close> replaces the leftmost occurrences\<close>

lemma str_replace_absent:
  assumes "old \<noteq> []" and "\<not> sublist old s"
  shows "str_replace old new s = s"
  using assms
proof (induction s)
  case Nil
  then show ?case by simp
next
  case (Cons c cs)
  have "\<not> prefix old (c # cs)"
    using Cons.prems(2) by (meson prefix_imp_sublist)
  moreover have "\<not> sublist old cs"
    using Cons.prems(2) by (meson sublist_Cons_right)
  ultimately show ?case using Cons by simp
qed

lemma str_replace_occurrence:
  "old \<noteq> [] \<Longrightarrow> str_replace old new (old @ post) = new @ str_replace old new post"
  by (cases old) simp_all

lemma str_replace_first:
  assumes "old \<noteq> []" and "\<not> sublist old (pre @ butlast old)"
  shows "str_replace old new (pre @ old @ post) = pre @ new @ str_replace old new post"
  using assms
proof (induction pre)
  case Nil
  then show ?case by (simp add: str_replace_occurrence)
next
  case (Cons p ps)
  have np: "\<not> prefix old (p # ps @ old @ post)"
  proof
    assume pr: "prefix old (p # ps @ old @ post)"
    have e: "p # ps @ old @ post = ((p # ps) @ butlast old) @ (last old # post)"
      using Cons.prems(1) by simp
    have "length old \<le> length ((p # ps) @ butlast old)"
      by simp
    then have "prefix old ((p # ps) @ butlast old)"
      using pr e by (metis prefix_length_prefix prefixI)
    then show False
      using Cons.prems(2) by (meson prefix_imp_sublist)
  qed
  have "\<not> sublist old (ps @ butlast old)"
    using Cons.prems(2) by (metis append_Cons sublist_Cons_right)
  then show ?case
    using Cons.IH Cons.prems(1) np by simp
qed

subsection \<open>A returning run of \<open>create_s3_destination\<close>\<close>

lemma create_s3_destination_described:
  assumes "create_s3_destination w sess s = (Inr props, s')"
  shows "\<exists>t ts. cloudtrail_describe_trails w = Inr (t # ts)"
proof -
  from assms obtain trails where d: "cloudtrail_describe_trails w = Inr trails"
    by (cases "cloudtrail_describe_trails w")
       (simp_all add: create_s3_destination_def prog_simps)
  from assms d obtain t ts where tl: "trails = t # ts"
    by (cases trails) (simp_all add: create_s3_destination_def prog_simps)
  show ?thesis using d tl by simp
qed

lemma create_s3_destination_returns_at:
  assumes "cloudtrail_describe_trails w = Inr (t # ts)"
    and "create_s3_destination w sess s = (Inr props, s')"
  shows "\<exists>creds s1 s2 arn.
           assume_role w (str_split CHR ''-'' (S3BucketName t) ! 3) (role_to_assume w)
             (s\<lparr>trace := trace s @
                  [Cloudtrail_describe_trails [''aws-controltower-BaselineCloudTrail'']]\<rparr>) =
             (Inr creds, s1) \<and>
           create_bucket_and_key w sess (str_replace ''logs'' ''guardduty'' (S3BucketName t))
             (HomeRegion t) s1 = (Inr arn, s2) \<and>
           props = \<lparr>DestinationArn =
                      ''arn:aws:s3:::'' @ str_replace ''logs'' ''guardduty'' (S3BucketName t),
                    KmsKeyArn = arn\<rparr> \<and>
           trace s' = trace s2 @
             [S3_put_bucket_policy (str_replace ''logs'' ''guardduty'' (S3BucketName t))
                (json_dumps (bucket_policy (str_replace ''logs'' ''guardduty'' (S3BucketName t))
                               arn)),
              S3_put_bucket_encryption (str_replace ''logs'' ''guardduty'' (S3BucketName t))
                ''AES256'']"
  using assms
  by (auto simp: create_s3_destination_def Let_def prog_simps
           split: sum.splits option.splits prod.splits if_splits)

subsection \<open>The derived bucket name and the key\<close>

text \<open>
  C8. Whenever \<open>create_s3_destination\<close> returns, the bucket it asked to create and the
  destination ARN it returns are named by the trail's bucket name with \<^verbatim>\<open>logs\<close> replaced by
  \<^verbatim>\<open>guardduty\<close>; for \<^verbatim>\<open>aws-controltower-logs-123456789012-us-east-1\<close> that name is
  \<^verbatim>\<open>aws-controltower-guardduty-123456789012-us-east-1\<close>.
\<close>

theorem destination_bucket_name:
  assumes "cloudtrail_describe_trails w = Inr (t # ts)"
    and "create_s3_destination w sess s = (Inr props, s')"
  shows "DestinationArn props =
           ''arn:aws:s3:::'' @ str_replace ''logs'' ''guardduty'' (S3BucketName t) \<and>
         map fst (create_bucket_calls (trace s')) =
           map fst (create_bucket_calls (trace s)) @
           [str_replace ''logs'' ''guardduty'' (S3BucketName t)] \<and>
         str_replace ''logs'' ''guardduty'' ''aws-controltower-logs-123456789012-us-east-1'' =
           ''aws-controltower-guardduty-123456789012-us-east-1''"
proof -
  let ?b = "str_replace ''logs'' ''guardduty'' (S3BucketName t)"
  let ?s0 = "s\<lparr>trace := trace s @
                  [Cloudtrail_describe_trails [''aws-controltower-BaselineCloudTrail'']]\<rparr>"
  obtain creds s1 s2 arn where
    ar: "assume_role w (str_split CHR ''-'' (S3BucketName t) ! 3) (role_to_assume w) ?s0 =
           (Inr creds, s1)"
    and cb: "create_bucket_and_key w sess ?b (HomeRegion t) s1 = (Inr arn, s2)"
    and p: "props = \<lparr>DestinationArn = ''arn:aws:s3:::'' @ ?b, KmsKeyArn = arn\<rparr>"
    and tr: "trace s' = trace s2 @
               [S3_put_bucket_policy ?b (json_dumps (bucket_policy ?b arn)),
                S3_put_bucket_encryption ?b ''AES256'']"
    using create_s3_destination_returns_at[OF assms(1,2)] by (elim exE conjE) (rule that)
  have b1: "create_bucket_calls (trace s1) = create_bucket_calls (trace s)"
    using preservesD[OF assume_role_buckets ar] by (simp add: create_bucket_calls_append)
  obtain c where b2: "create_bucket_calls (trace s2) = create_bucket_calls (trace s1) @ [(?b, c)]"
    using create_bucket_and_key_calls[of w sess ?b "HomeRegion t" s1] cb
    by (elim exE conjE) (rule that, simp)
  have names: "map fst (create_bucket_calls (trace s')) =
                 map fst (create_bucket_calls (trace s)) @ [?b]"
    using tr b1 b2 by (simp add: create_bucket_calls_append)
  have example:
    "str_replace ''logs'' ''guardduty'' ''aws-controltower-logs-123456789012-us-east-1'' =
       ''aws-controltower-guardduty-123456789012-us-east-1''"
    by simp
  show ?thesis
    using p names example by simp
qed

theorem destination_bucket_name_witness:
  "fst (create_s3_destination world0 session0 state0) =
     Inr \<lparr>DestinationArn = ''arn:aws:s3:::aws-controltower-guardduty-123456789012-us-east-1'',
          KmsKeyArn = ''arn:aws:kms:::key/key-1''\<rparr> \<and>
   create_bucket_calls (trace (snd (create_s3_destination world0 session0 state0))) =
     [(''aws-controltower-guardduty-123456789012-us-east-1'', None)]"
proof -
  define s' where "s' = snd (create_s3_destination world0 session0 state0)"
  have a: "cloudtrail_describe_trails world0 =
             Inr (\<lparr>S3BucketName = ''aws-controltower-logs-123456789012-us-east-1'',
                   S3KeyPrefix = Some ''o-abcdefghij'', HomeRegion = ''us-east-1''\<rparr> # [])"
    by (simp add: world0_def)
  have b: "create_s3_destination world0 session0 state0 = (Inr properties0, s')"
    unfolding s'_def by (simp add: run_defs)
  have f: "fst (create_s3_destination world0 session0 state0) = Inr properties0"
    using b by simp
  have c: "create_bucket_calls (trace (snd (create_s3_destination world0 session0 state0))) =
             [(''aws-controltower-guardduty-123456789012-us-east-1'', None)]"
    by (simp add: run_defs)
  show ?thesis
    using destination_bucket_name[OF a b] f c
    by (simp add: properties0_def)
qed

subsection \<open>Reusing the key\<close>

lemma try_bucket_then_key_reuse:
  assumes "try_except (seq (api_call (S3_create_bucket b c) x) (create_kms_key w sess kr))
             is_Exception
             (\<lambda>e. seq (logger_info m1) (seq (logger_error m2) (ret []))) s = (r, s')"
    and "describe_key_calls (trace s') = describe_key_calls (trace s) @ [(region, alias)]"
    and "kms_describe_key w region = Inr key"
  shows "r = Inr (Arn key) \<and> create_key_calls (trace s') = create_key_calls (trace s)"
proof (cases x)
  case (Inl e)
  then show ?thesis
    using assms(1,2) by (auto simp: prog_simps describe_key_calls_append)
next
  case (Inr u)
  show ?thesis
  proof (cases "kms_describe_key w kr")
    case found: (Inr k)
    then show ?thesis
      using assms Inr
      by (auto simp: create_kms_key_def Let_def prog_simps describe_key_calls_append
            create_key_calls_append)
  next
    case missing: (Inl e)
    then show ?thesis
      using assms Inr
      by (auto simp: create_kms_key_def Let_def prog_simps describe_key_calls_append
            create_key_calls_append split: sum.splits)
  qed
qed

lemma create_bucket_and_key_reuse:
  assumes "create_bucket_and_key w sess b home s = (r, s')"
    and "describe_key_calls (trace s') = describe_key_calls (trace s) @ [(region, alias)]"
    and "kms_describe_key w region = Inr key"
  shows "r = Inr (Arn key) \<and> create_key_calls (trace s') = create_key_calls (trace s)"
proof (cases "home \<in> set allowed_regions")
  case True
  then show ?thesis
    using assms(1) try_bucket_then_key_reuse[OF _ assms(2,3)]
    unfolding create_bucket_and_key_def by (simp only: if_True)
next
  case False
  show ?thesis
  proof (cases "startswith home ''eu''")
    case True
    with False show ?thesis
      using assms(1) try_bucket_then_key_reuse[OF _ assms(2,3)]
      unfolding create_bucket_and_key_def by (simp only: if_True if_False)
  next
    case nostart: False
    with False show ?thesis
      using assms(1) try_bucket_then_key_reuse[OF _ assms(2,3)]
      unfolding create_bucket_and_key_def by (simp only: if_False)
  qed
qed

lemma assume_role_describe_key:
  "preserves (\<lambda>s. describe_key_calls (trace s)) (assume_role w a r)"
  unfolding assume_role_def Let_def
  by (intro preserves_intros) (simp_all add: describe_key_calls_append)

lemma assume_role_create_key:
  "preserves (\<lambda>s. create_key_calls (trace s)) (assume_role w a r)"
  unfolding assume_role_def Let_def
  by (intro preserves_intros) (simp_all add: create_key_calls_append)

text \<open>
  C5. Whenever \<open>create_s3_destination\<close> returns and, on the way, the key was described by the
  fixed alias (the one request of that kind in its trace, for some region) and the description
  succeeded, no key creation was requested and the returned properties carry the described
  key's ARN in \<open>KmsKeyArn\<close>.
\<close>

theorem existing_key_is_reused:
  assumes "create_s3_destination w sess s = (Inr props, s')"
    and "describe_key_calls (trace s') = describe_key_calls (trace s) @ [(region, alias)]"
    and "kms_describe_key w region = Inr key"
  shows "create_key_calls (trace s') = create_key_calls (trace s) \<and> KmsKeyArn props = Arn key"
proof -
  let ?s0 = "s\<lparr>trace := trace s @
                  [Cloudtrail_describe_trails [''aws-controltower-BaselineCloudTrail'']]\<rparr>"
  obtain t ts where d: "cloudtrail_describe_trails w = Inr (t # ts)"
    using create_s3_destination_described[OF assms(1)] by (elim exE) (rule that)
  let ?b = "str_replace ''logs'' ''guardduty'' (S3BucketName t)"
  obtain creds s1 s2 arn where
    ar: "assume_role w (str_split CHR ''-'' (S3BucketName t) ! 3) (role_to_assume w) ?s0 =
           (Inr creds, s1)"
    and cb: "create_bucket_and_key w sess ?b (HomeRegion t) s1 = (Inr arn, s2)"
    and p: "props = \<lparr>DestinationArn = ''arn:aws:s3:::'' @ ?b, KmsKeyArn = arn\<rparr>"
    and tr: "trace s' = trace s2 @
               [S3_put_bucket_policy ?b (json_dumps (bucket_policy ?b arn)),
                S3_put_bucket_encryption ?b ''AES256'']"
    using create_s3_destination_returns_at[OF d assms(1)] by (elim exE conjE) (rule that)
  have d1: "describe_key_calls (trace s1) = describe_key_calls (trace s)"
    using preservesD[OF assume_role_describe_key ar] by (simp add: describe_key_calls_append)
  have k1: "create_key_calls (trace s1) = create_key_calls (trace s)"
    using preservesD[OF assume_role_create_key ar] by (simp add: create_key_calls_append)
  have d2: "describe_key_calls (trace s2) = describe_key_calls (trace s1) @ [(region, alias)]"
    using assms(2) tr d1 by (simp add: describe_key_calls_append)
  have reuse: "Inr arn = (Inr (Arn key) :: exn + string) \<and>
               create_key_calls (trace s2) = create_key_calls (trace s1)"
    using create_bucket_and_key_reuse[OF cb d2 assms(3)] .
  have k2: "create_key_calls (trace s') = create_key_calls (trace s)"
    using reuse k1 tr by (simp add: create_key_calls_append)
  have arn: "KmsKeyArn props = Arn key"
    using reuse p by simp
  show ?thesis
    using k2 arn by blast
qed

text \<open>In \<open>world0\<close> the bucket is created, the key is found in \<^verbatim>\<open>us-east-1\<close> and its ARN is
  returned.\<close>

theorem existing_key_is_reused_witness:
  "kms_describe_key world0 ''us-east-1'' =
     Inr \<lparr>KeyId = ''key-1'', Arn = ''arn:aws:kms:::key/key-1''\<rparr> \<and>
   describe_key_calls (trace (snd (create_s3_destination world0 session0 state0))) =
     [(''us-east-1'', ''alias/controltower/guardduty'')] \<and>
   create_key_calls (trace (snd (create_s3_destination world0 session0 state0))) = [] \<and>
   KmsKeyArn properties0 = ''arn:aws:kms:::key/key-1'' \<and>
   fst (create_s3_destination world0 session0 state0) = Inr properties0"
proof -
  define s' where "s' = snd (create_s3_destination world0 session0 state0)"
  have a: "create_s3_destination world0 session0 state0 = (Inr properties0, s')"
    unfolding s'_def by (simp add: run_defs)
  have b: "describe_key_calls (trace s') =
             describe_key_calls (trace state0) @ [(''us-east-1'', ''alias/controltower/guardduty'')]"
    unfolding s'_def by (simp add: run_defs)
  have c: "kms_describe_key world0 ''us-east-1'' =
             Inr \<lparr>KeyId = ''key-1'', Arn = ''arn:aws:kms:::key/key-1''\<rparr>"
    by (simp add: world0_def)
  have k: "create_key_calls (trace s') = [] \<and> KmsKeyArn properties0 = ''arn:aws:kms:::key/key-1''"
    using existing_key_is_reused[OF a b c] by (simp add: state0_def)
  have f: "fst (create_s3_destination world0 session0 state0) = Inr properties0"
    using a by simp
  have b': "describe_key_calls (trace s') = [(''us-east-1'', ''alias/controltower/guardduty'')]"
    using b by (simp add: state0_def)
  show ?thesis
    using k f b' c unfolding s'_def by blast
qed

text \<open>When the creation of the bucket is refused, the key is not looked up at all and the
  returned properties carry the empty string, whether or not the aliased key exists.\<close>

lemma key_not_described_when_bucket_creation_fails:
  "describe_key_calls (trace (snd (create_s3_destination world_bucket_exists session0 state0)))
     = [] \<and>
   fst (create_s3_destination world_bucket_exists session0 state0) =
     Inr \<lparr>DestinationArn = ''arn:aws:s3:::aws-controltower-guardduty-123456789012-us-east-1'',
          KmsKeyArn = []\<rparr>"
  by (simp add: world_bucket_exists_def run_defs)

subsection \<open>What the accumulators record\<close>

lemma failed_members_dict_update_regions:
  "preserves failed_regions (failed_members_dict_update k v)"
  by (simp add: preserves_def failed_members_dict_update_def)

lemma log_failures_regions: "preserves failed_regions log_failures"
  by (simp add: preserves_def log_failures_def prog_simps)

lemma assume_role_regions: "preserves failed_regions (assume_role w a r)"
  unfolding assume_role_def Let_def by (intro preserves_intros) simp_all

lemma create_kms_key_regions: "preserves failed_regions (create_kms_key w sess r)"
  unfolding create_kms_key_def Let_def by (intro preserves_intros) simp_all

lemma create_bucket_and_key_regions:
  "preserves failed_regions (create_bucket_and_key w sess b r)"
  unfolding create_bucket_and_key_def
  by (intro preserves_intros create_kms_key_regions) simp_all

lemma create_s3_destination_regions: "preserves failed_regions (create_s3_destination w sess)"
  unfolding create_s3_destination_def Let_def
  by (intro preserves_intros create_bucket_and_key_regions assume_role_regions) simp_all

text \<open>Enabling the master leaves \<^verbatim>\<open>failed_regions\<close> as it was, whether the request succeeds or
  raises: the handler of lines 160-168 only logs.\<close>

lemma enable_gd_master_regions: "preserves failed_regions (enable_gd_master w r)"
  unfolding enable_gd_master_def by (intro preserves_intros) simp_all

lemma enable_gd_member_regions: "preserves failed_regions (enable_gd_member w sess r p)"
  unfolding enable_gd_member_def Let_def client_error_handler_def
  by (intro preserves_intros failed_members_dict_update_regions) simp_all

lemma region_body_regions: "preserves failed_regions (region_body w sess arn region)"
  unfolding region_body_def
  by (intro preserves_intros enable_gd_master_regions enable_gd_member_regions) simp_all

lemma region_loop_regions: "preserves failed_regions (region_loop w sess arn regions)"
  by (induction regions) (auto intro!: preserves_intros region_body_regions)

lemma cfnresponse_regions: "preserves failed_regions (cfnresponse w event ctx st d p n)"
  unfolding cfnresponse_def Let_def by (intro preserves_intros) simp_all

lemma handler_regions: "preserves failed_regions (handler w event ctx)"
  unfolding handler_def Let_def
  by (intro preserves_intros assume_role_regions create_s3_destination_regions
        region_loop_regions cfnresponse_regions log_failures_regions)

text \<open>The function that is never called does record the region.\<close>

lemma disable_gd_master_records_failure:
  assumes "gd_disable_organization_admin_account w region = Inl e"
  shows "failed_regions (snd (disable_gd_master w region s)) = failed_regions s @ [region]"
  using assms by (simp add: disable_gd_master_def failed_regions_append_def prog_simps)

text \<open>
  C6 (the code does not do this). In \<open>world_master_fails\<close> the request to enable the master
  raises in each of the three regions. The handler makes the three requests and returns, and
  \<^verbatim>\<open>failed_regions\<close> is still empty: \<open>enable_gd_master\<close> logs the failure and records nothing.
\<close>

theorem master_failure_is_not_recorded:
  "gd_enable_organization_admin_account world_master_fails ''us-east-1'' =
     Inl (ClientError ''AccessDeniedException'') \<and>
   failed_regions (snd (enable_gd_master world_master_fails ''us-east-1'' state0)) = [] \<and>
   enable_master_calls (trace (snd (handler world_master_fails event0 context0 state0))) =
     [(''us-east-1'', ''111111111111''), (''eu-west-1'', ''111111111111''),
      (''ap-south-1'', ''111111111111'')] \<and>
   failed_regions (snd (handler world_master_fails event0 context0 state0)) = []"
  by (simp add: handler_def cfnresponse_def log_failures_def default_physicalResourceId_def
        default_noEcho_def world_master_fails_def run_defs)

subsection \<open>The member enroller's failure paths\<close>

lemma enable_gd_member_empty_detector_list:
  assumes "gd_list_detectors w region = Inr []"
  shows "enable_gd_member w sess region props s =
           (Inl (IndexError ''list index out of range''),
            s\<lparr>trace := trace s @ [Guardduty_list_detectors region]\<rparr>)"
  using assms by (simp add: enable_gd_member_def prog_simps)

text \<open>
  C3 (the code does not do this). In \<open>world_no_detector\<close> the detector listing succeeds and is
  empty. The member enroller does not return: line 208 raises \<^verbatim>\<open>IndexError\<close>. Its only
  request is the listing and nothing is recorded in \<^verbatim>\<open>failed_members\<close>, but the handler's loop
  logs the region as an error.
\<close>

theorem empty_detector_list_raises:
  "gd_list_detectors world_no_detector ''us-east-1'' = Inr [] \<and>
   enable_gd_member world_no_detector session0 ''us-east-1'' properties0 state0 =
     (Inl (IndexError ''list index out of range''),
      state0\<lparr>trace := [Guardduty_list_detectors ''us-east-1'']\<rparr>) \<and>
   error_log_lines
     (trace (snd (region_body world_no_detector session0 properties0 ''us-east-1'' state0))) =
     [''Error to enable master or member in region us-east-1'']"
  by (simp add: world_no_detector_def run_defs)

text \<open>A client error from \<^verbatim>\<open>create_members\<close> or from the configuration update that follows it
  never reaches \<^verbatim>\<open>failed_members\<close>: the handler of the exception raises itself.\<close>

lemma client_error_is_not_recorded:
  assumes "gd_list_detectors w region = Inr (d # ds)"
    and "gd_create_publishing_destination w region d = Inr ()"
    and "org_list_accounts w region = Inr accounts"
    and "gd_create_members w region d (build_details (gdmaster_account_number w) accounts) =
           Inl (ClientError m)"
  shows "fst (enable_gd_member w sess region props s) =
           Inl (if accounts = []
                then UnboundLocalError ''local variable account referenced before assignment''
                else TypeError ''unhashable type: dict'') \<and>
         failed_members (snd (enable_gd_member w sess region props s)) = failed_members s"
  using assms
  by (simp add: enable_gd_member_def client_error_handler_def Let_def prog_simps)

text \<open>Whatever happens, the only key the member enroller ever writes is \<^verbatim>\<open>'region'\<close>.\<close>

lemma failed_members_only_key_region:
  "failed_members (snd (enable_gd_member w sess region props s)) = failed_members s \<or>
   (\<exists>failed_accounts.
      failed_members (snd (enable_gd_member w sess region props s)) =
        AList.update ''region'' failed_accounts (failed_members s))"
  by (auto simp: enable_gd_member_def client_error_handler_def Let_def prog_simps
        split: sum.splits list.splits)

text \<open>
  C4 (the code does not do this). In \<open>world_client_error\<close> the roster is refused with a client
  error. The exception is caught on line 241, but the handler raises \<^verbatim>\<open>TypeError\<close> on line 243,
  so the member enroller raises and \<^verbatim>\<open>failed_members\<close> stays empty; the loop catches that and
  goes on. Where a failure is recorded (\<open>world_unprocessed\<close>: one account is reported as
  unprocessed), its key is the string \<^verbatim>\<open>'region'\<close> and not the region \<^verbatim>\<open>eu-west-1\<close>.
\<close>

theorem client_error_leaves_no_failure_record:
  "gd_create_members world_client_error ''eu-west-1'' ''detector-1''
     (build_details (gdmaster_account_number world_client_error)
        [\<lparr>Id = ''111111111111'', Email = ''security@example.com''\<rparr>,
         \<lparr>Id = ''222222222222'', Email = ''dev@example.com''\<rparr>,
         \<lparr>Id = ''333333333333'', Email = ''prod@example.com''\<rparr>]) =
     Inl (ClientError ''BadRequestException'') \<and>
   fst (enable_gd_member world_client_error session0 ''eu-west-1'' properties0 state0) =
     Inl (TypeError ''unhashable type: dict'') \<and>
   failed_members
     (snd (enable_gd_member world_client_error session0 ''eu-west-1'' properties0 state0)) = [] \<and>
   region_loop world_client_error session0 properties0 [''eu-west-1''] state0 =
     (Inr (),
      state0\<lparr>trace :=
        [Log INFO ''Enabling gd master for region eu-west-1'',
         Guardduty_enable_organization_admin_account ''eu-west-1'' ''111111111111'',
         Guardduty_list_detectors ''eu-west-1'',
         Guardduty_create_publishing_destination ''eu-west-1'' ''detector-1'' ''S3'' properties0
           ''detector-1'',
         Organizations_list_accounts,
         Guardduty_create_members ''eu-west-1'' ''detector-1''
           [\<lparr>AccountId = ''222222222222'', MemberEmail = ''dev@example.com''\<rparr>,
            \<lparr>AccountId = ''333333333333'', MemberEmail = ''prod@example.com''\<rparr>],
         Log ERROR ''Error to enable master or member in region eu-west-1'']\<rparr>) \<and>
   failed_members
     (snd (enable_gd_member world_unprocessed session0 ''eu-west-1'' properties0 state0)) =
     [(''region'',
       [[\<lparr>UnprocessedAccountId = ''222222222222'', Result = ''already a member''\<rparr>]])]"
  by (simp add: world_client_error_def world_unprocessed_def run_defs)

subsection \<open>Strings\<close>

lemma hex_val_hex_char: "d < 16 \<Longrightarrow> hex_val (hex_char d) = Some d"
  by (auto simp: hex_val_def hex_char_def Let_def)

lemma parse_chars_escape:
  "parse_chars (escape_char c @ rest) = map_option (\<lambda>(s, r). (c # s, r)) (parse_chars rest)"
proof -
  let ?n = "of_char c :: nat"
  have n: "?n < 256" by simp
  have v: "((0 * 16 + 0) * 16 + ?n div 16) * 16 + ?n mod 16 = ?n" by simp
  have h1: "hex_val (hex_char (?n div 16)) = Some (?n div 16)"
  proof (rule hex_val_hex_char)
    show "?n div 16 < 16" using n by arith
  qed
  have h2: "hex_val (hex_char (?n mod 16)) = Some (?n mod 16)"
    by (intro hex_val_hex_char) simp
  have h0: "hex_val CHR ''0'' = Some 0"
    by (simp add: hex_val_def)
  show ?thesis
    using h1 h2 h0 n
    by (auto simp: escape_char_def unescape_def dquote_def backslash_def)
qed

lemma parse_chars_escaped:
  "parse_chars (concat (map escape_char s) @ dquote # rest) = Some (s, rest)"
  by (induction s) (simp_all add: parse_chars_escape)

lemma parse_chars_json_string:
  "json_string s @ rest = dquote # t \<Longrightarrow> parse_chars t = Some (s, rest)"
  using parse_chars_escaped[of s rest] by (simp add: json_string_def)

subsection \<open>Integers\<close>

lemma is_digit_digit_char: "d < 10 \<Longrightarrow> is_digit (digit_char d)"
  by (simp add: is_digit_def digit_char_def)

lemma digit_val_digit_char: "d < 10 \<Longrightarrow> digit_val (digit_char d) = d"
  by (simp add: digit_val_def digit_char_def)

lemma str_nat_digits: "list_all is_digit (str_nat n) \<and> str_nat n \<noteq> []"
proof (induction n rule: str_nat.induct)
  case (1 n)
  show ?case
  proof (cases "n < 10")
    case True
    then show ?thesis
      by (subst (1 2) str_nat.simps) (simp add: is_digit_digit_char)
  next
    case False
    then show ?thesis
      using "1.IH" by (subst (1 2) str_nat.simps) (simp add: is_digit_digit_char)
  qed
qed

lemma nat_of_digits_snoc: "nat_of_digits (ds @ [c]) = nat_of_digits ds * 10 + digit_val c"
  by (simp add: nat_of_digits_def)

lemma nat_of_digits_str_nat: "nat_of_digits (str_nat n) = n"
proof (induction n rule: str_nat.induct)
  case (1 n)
  show ?case
  proof (cases "n < 10")
    case True
    then show ?thesis
      by (subst str_nat.simps) (simp add: nat_of_digits_def digit_val_digit_char)
  next
    case False
    then show ?thesis
      using "1.IH"
      by (subst str_nat.simps) (simp add: nat_of_digits_snoc digit_val_digit_char)
  qed
qed

lemma parse_nat_str_nat:
  assumes "no_digit_ahead rest"
  shows "parse_nat (str_nat n @ rest) = Some (n, rest)"
proof -
  have d: "list_all is_digit (str_nat n)" and ne: "str_nat n \<noteq> []"
    using str_nat_digits[of n] by simp_all
  have r: "takeWhile is_digit rest = []" "dropWhile is_digit rest = rest"
    using assms by (cases rest; simp add: no_digit_ahead_def)+
  have t: "takeWhile is_digit (str_nat n @ rest) = str_nat n"
    using d r by (simp add: takeWhile_append2 list_all_iff)
  have dr: "dropWhile is_digit (str_nat n @ rest) = rest"
    using d r by (simp add: dropWhile_append2 list_all_iff)
  show ?thesis
    using t dr ne by (simp add: parse_nat_def Let_def nat_of_digits_str_nat)
qed

lemma str_nat_head: "\<exists>c t. str_nat n = c # t \<and> is_digit c"
  using str_nat_digits[of n] by (cases "str_nat n") simp_all

lemma minus_not_digit: "\<not> is_digit CHR ''-''"
  by (simp add: is_digit_def)

lemma parse_int_str_int:
  assumes "no_digit_ahead rest"
  shows "parse_int (str_int i @ rest) = Some (i, rest)"
proof (cases "i < 0")
  case True
  then show ?thesis
    using parse_nat_str_nat[OF assms, of "nat (- i)"]
    by (simp add: parse_int_def str_int_def)
next
  case False
  obtain c t where h: "str_nat (nat i) = c # t" and dc: "is_digit c"
    using str_nat_head[of "nat i"] by blast
  have "c \<noteq> CHR ''-''"
    using dc minus_not_digit by auto
  then show ?thesis
    using False h parse_nat_str_nat[OF assms, of "nat i"]
    by (simp add: parse_int_def str_int_def)
qed

lemma str_int_head: "\<exists>c t. str_int i = c # t \<and> (c = CHR ''-'' \<or> is_digit c)"
  using str_nat_head[of "nat i"] by (auto simp: str_int_def)

subsection \<open>Values\<close>

lemma digit_not_special:
  assumes "is_digit c"
  shows "\<not> is_ws c \<and> c \<noteq> CHR '']'' \<and> c \<noteq> CHR ''}'' \<and> c \<noteq> CHR ''n'' \<and> c \<noteq> CHR ''t''
         \<and> c \<noteq> CHR ''f'' \<and> c \<noteq> dquote \<and> c \<noteq> CHR ''['' \<and> c \<noteq> CHR ''{''"
  using assms by (auto simp: is_digit_def is_ws_def dquote_def)

lemma json_string_head: "\<exists>t. json_string k = dquote # t"
  by (simp add: json_string_def)

lemma json_dumps_head:
  "\<exists>c t. json_dumps v = c # t \<and> \<not> is_ws c \<and> c \<noteq> CHR '']'' \<and> c \<noteq> CHR ''}''"
proof (cases v)
  case (JInt i)
  obtain c t where h: "str_int i = c # t" and c: "c = CHR ''-'' \<or> is_digit c"
    using str_int_head[of i] by blast
  have "\<not> is_ws c \<and> c \<noteq> CHR '']'' \<and> c \<noteq> CHR ''}''"
    using c digit_not_special[of c] by (auto simp: is_ws_def)
  then show ?thesis using JInt h by simp
qed (auto simp: is_ws_def json_string_def dquote_def)

lemma dumps_elems_head:
  assumes "xs \<noteq> []"
  shows "\<exists>c t. dumps_elems xs = c # t \<and> \<not> is_ws c \<and> c \<noteq> CHR '']'' \<and> c \<noteq> CHR ''}''"
proof -
  obtain x ys where xs: "xs = x # ys" using assms by (cases xs) auto
  obtain c t where h: "json_dumps x = c # t"
    and c: "\<not> is_ws c \<and> c \<noteq> CHR '']'' \<and> c \<noteq> CHR ''}''"
    using json_dumps_head[of x] by blast
  show ?thesis using xs h c by (cases ys) auto
qed

lemma dumps_items_head:
  assumes "kvs \<noteq> []"
  shows "\<exists>t. dumps_items kvs = dquote # t"
proof -
  obtain k v rest where kvs: "kvs = (k, v) # rest" using assms by (cases kvs) auto
  show ?thesis using kvs by (cases rest) (auto simp: json_string_def)
qed

lemma skip_ws_keep: "\<not> is_ws c \<Longrightarrow> skip_ws (c # t) = c # t"
  by simp

lemma skip_ws_json_dumps: "skip_ws (json_dumps v @ rest) = json_dumps v @ rest"
  using json_dumps_head[of v] by auto

lemma skip_ws_dumps_elems: "xs \<noteq> [] \<Longrightarrow> skip_ws (dumps_elems xs @ rest) = dumps_elems xs @ rest"
  using dumps_elems_head[of xs] by auto

lemma dquote_not_ws: "\<not> is_ws dquote"
  by (simp add: is_ws_def dquote_def)

lemma skip_ws_dumps_items: "kvs \<noteq> [] \<Longrightarrow> skip_ws (dumps_items kvs @ rest) = dumps_items kvs @ rest"
  using dumps_items_head[of kvs] dquote_not_ws by auto

lemma parse_value_atom:
  assumes "skip_ws s = c # cs"
  shows "parse_value (Suc n) s =
          (if c = CHR ''n'' then (if take 3 cs = ''ull'' then Some (JNull, drop 3 cs) else None)
          else if c = CHR ''t'' then
            (if take 3 cs = ''rue'' then Some (JBool True, drop 3 cs) else None)
          else if c = CHR ''f'' then
            (if take 4 cs = ''alse'' then Some (JBool False, drop 4 cs) else None)
          else if c = dquote then map_option (\<lambda>(str, r). (JStr str, r)) (parse_chars cs)
          else if c = CHR ''['' then
            (case skip_ws cs of
               [] \<Rightarrow> None
             | d # ds \<Rightarrow>
                 if d = CHR '']'' then Some (JList [], ds)
                 else map_option (\<lambda>(vs, r). (JList vs, r)) (parse_elems n cs))
          else if c = CHR ''{'' then
            (case skip_ws cs of
               [] \<Rightarrow> None
             | d # ds \<Rightarrow>
                 if d = CHR ''}'' then Some (JObj [], ds)
                 else map_option (\<lambda>(kvs, r). (JObj kvs, r)) (parse_items n cs))
          else if c = CHR ''-'' \<or> is_digit c then
            map_option (\<lambda>(i, r). (JInt i, r)) (parse_int (c # cs))
          else None)"
  using assms by simp

lemma parse_value_int:
  assumes "skip_ws s = str_int i @ rest" and "no_digit_ahead rest"
  shows "parse_value (Suc n) s = Some (JInt i, rest)"
proof -
  obtain c t where h: "str_int i = c # t" and c: "c = CHR ''-'' \<or> is_digit c"
    using str_int_head[of i] by blast
  have ns: "c \<noteq> CHR ''n'' \<and> c \<noteq> CHR ''t'' \<and> c \<noteq> CHR ''f'' \<and> c \<noteq> dquote \<and> c \<noteq> CHR ''[''
            \<and> c \<noteq> CHR ''{''"
    using c digit_not_special[of c] by (auto simp: dquote_def)
  have s: "skip_ws s = c # (t @ rest)" using assms(1) h by simp
  have p: "parse_int (c # (t @ rest)) = Some (i, rest)"
    using parse_int_str_int[OF assms(2), of i] h by simp
  show ?thesis
    unfolding parse_value_atom[OF s] using ns c p by simp
qed

lemma parse_value_str:
  assumes "skip_ws s = json_string str @ rest"
  shows "parse_value (Suc n) s = Some (JStr str, rest)"
proof -
  obtain t where h: "json_string str @ rest = dquote # t"
    using json_string_head[of str] by auto
  have p: "parse_chars t = Some (str, rest)"
    using parse_chars_json_string[OF h] .
  have s: "skip_ws s = dquote # t" using assms h by simp
  show ?thesis
    unfolding parse_value_atom[OF s] using p by (simp add: dquote_def)
qed

lemma no_digit_ahead_comma: "no_digit_ahead (CHR '','' # t)"
  and no_digit_ahead_bracket: "no_digit_ahead (CHR '']'' # t)"
  and no_digit_ahead_brace: "no_digit_ahead (CHR ''}'' # t)"
  and no_digit_ahead_Nil: "no_digit_ahead []"
  by (simp_all add: no_digit_ahead_def is_digit_def)

lemma comma_not_ws: "\<not> is_ws CHR '',''" and bracket_not_ws: "\<not> is_ws CHR '']''"
  and brace_not_ws: "\<not> is_ws CHR ''}''" and colon_not_ws: "\<not> is_ws CHR '':''"
  and space_ws: "is_ws CHR '' ''"
  by (simp_all add: is_ws_def)

lemma parse_elems_last:
  assumes "parse_value n s = Some (v, CHR '']'' # rest)"
  shows "parse_elems (Suc n) s = Some ([v], rest)"
  using assms by (simp add: is_ws_def)

lemma parse_elems_more:
  assumes "parse_value n s = Some (v, CHR '','' # cs)"
    and "parse_elems n cs = Some (vs, rest)"
  shows "parse_elems (Suc n) s = Some (v # vs, rest)"
  using assms by (simp add: is_ws_def)

lemma parse_items_last:
  assumes "skip_ws s = dquote # s1"
    and "parse_chars s1 = Some (k, CHR '':'' # s3)"
    and "parse_value n s3 = Some (v, CHR ''}'' # rest)"
  shows "parse_items (Suc n) s = Some ([(k, v)], rest)"
  using assms by (simp add: is_ws_def)

lemma parse_items_more:
  assumes "skip_ws s = dquote # s1"
    and "parse_chars s1 = Some (k, CHR '':'' # s3)"
    and "parse_value n s3 = Some (v, CHR '','' # cs)"
    and "parse_items n cs = Some (kvs, rest)"
  shows "parse_items (Suc n) s = Some ((k, v) # kvs, rest)"
  using assms by (simp add: is_ws_def)

lemma parse_roundtrip:
  "\<forall>n s rest. skip_ws s = json_dumps v @ rest \<longrightarrow> fuel_value v \<le> n \<longrightarrow> no_digit_ahead rest
      \<longrightarrow> parse_value n s = Some (v, rest)"
  "\<forall>n s rest. xs \<noteq> [] \<longrightarrow> skip_ws s = dumps_elems xs @ CHR '']'' # rest \<longrightarrow> fuel_elems xs \<le> n
      \<longrightarrow> parse_elems n s = Some (xs, rest)"
  "\<forall>n s rest. kvs \<noteq> [] \<longrightarrow> skip_ws s = dumps_items kvs @ CHR ''}'' # rest \<longrightarrow> fuel_items kvs \<le> n
      \<longrightarrow> parse_items n s = Some (kvs, rest)"
proof (induction v and xs and kvs rule: json_dumps_dumps_elems_dumps_items.induct)
  case 1
  show ?case
  proof (intro allI impI)
    fix n s rest
    assume s: "skip_ws s = json_dumps JNull @ rest" and f: "fuel_value JNull \<le> n"
    obtain m where n: "n = Suc m" using f by (cases n) auto
    have s': "skip_ws s = CHR ''n'' # (''ull'' @ rest)" using s by simp
    show "parse_value n s = Some (JNull, rest)"
      unfolding n parse_value_atom[OF s'] by simp
  qed
next
  case (2 b)
  show ?case
  proof (intro allI impI)
    fix n s rest
    assume s: "skip_ws s = json_dumps (JBool b) @ rest" and f: "fuel_value (JBool b) \<le> n"
    obtain m where n: "n = Suc m" using f by (cases n) auto
    show "parse_value n s = Some (JBool b, rest)"
    proof (cases b)
      case True
      have s': "skip_ws s = CHR ''t'' # (''rue'' @ rest)" using s True by simp
      show ?thesis unfolding n parse_value_atom[OF s'] using True by simp
    next
      case False
      have s': "skip_ws s = CHR ''f'' # (''alse'' @ rest)" using s False by simp
      show ?thesis unfolding n parse_value_atom[OF s'] using False by simp
    qed
  qed
next
  case (3 i)
  show ?case
  proof (intro allI impI)
    fix n s rest
    assume s: "skip_ws s = json_dumps (JInt i) @ rest" and f: "fuel_value (JInt i) \<le> n"
      and r: "no_digit_ahead rest"
    obtain m where n: "n = Suc m" using f by (cases n) auto
    show "parse_value n s = Some (JInt i, rest)"
      unfolding n using parse_value_int[of s i rest m] s r by simp
  qed
next
  case (4 str)
  show ?case
  proof (intro allI impI)
    fix n s rest
    assume s: "skip_ws s = json_dumps (JStr str) @ rest" and f: "fuel_value (JStr str) \<le> n"
    obtain m where n: "n = Suc m" using f by (cases n) auto
    show "parse_value n s = Some (JStr str, rest)"
      unfolding n using parse_value_str[of s str rest m] s by simp
  qed
next
  case (5 xs)
  show ?case
  proof (intro allI impI)
    fix n s rest
    assume s: "skip_ws s = json_dumps (JList xs) @ rest" and f: "fuel_value (JList xs) \<le> n"
    obtain m where n: "n = Suc m" and fm: "fuel_elems xs \<le> m" using f by (cases n) auto
    let ?cs = "dumps_elems xs @ CHR '']'' # rest"
    have s': "skip_ws s = CHR ''['' # ?cs" using s by simp
    show "parse_value n s = Some (JList xs, rest)"
    proof (cases "xs = []")
      case True
      then show ?thesis
        unfolding n parse_value_atom[OF s'] by (simp add: dquote_def is_ws_def)
    next
      case False
      obtain c t where h: "dumps_elems xs = c # t"
        and c: "\<not> is_ws c \<and> c \<noteq> CHR '']'' \<and> c \<noteq> CHR ''}''"
        using dumps_elems_head[OF False] by blast
      have sk: "skip_ws ?cs = c # (t @ CHR '']'' # rest)" using h c by simp
      have sk': "skip_ws ?cs = dumps_elems xs @ CHR '']'' # rest" using h c by simp
      have pe: "parse_elems m ?cs = Some (xs, rest)"
        using "5.IH" False sk' fm by blast
      show ?thesis
        unfolding n parse_value_atom[OF s'] using sk c pe by (simp add: dquote_def)
    qed
  qed
next
  case (6 kvs)
  show ?case
  proof (intro allI impI)
    fix n s rest
    assume s: "skip_ws s = json_dumps (JObj kvs) @ rest" and f: "fuel_value (JObj kvs) \<le> n"
    obtain m where n: "n = Suc m" and fm: "fuel_items kvs \<le> m" using f by (cases n) auto
    let ?cs = "dumps_items kvs @ CHR ''}'' # rest"
    have s': "skip_ws s = CHR ''{'' # ?cs" using s by simp
    show "parse_value n s = Some (JObj kvs, rest)"
    proof (cases "kvs = []")
      case True
      then show ?thesis
        unfolding n parse_value_atom[OF s'] by (simp add: dquote_def is_ws_def)
    next
      case False
      obtain t where h: "dumps_items kvs = dquote # t"
        using dumps_items_head[OF False] by blast
      have sk: "skip_ws ?cs = dquote # (t @ CHR ''}'' # rest)"
        using h dquote_not_ws by simp
      have sk': "skip_ws ?cs = dumps_items kvs @ CHR ''}'' # rest"
        using h dquote_not_ws by simp
      have pe: "parse_items m ?cs = Some (kvs, rest)"
        using "6.IH" False sk' fm by blast
      show ?thesis
        unfolding n parse_value_atom[OF s'] using sk pe by (simp add: dquote_def)
    qed
  qed
next
  case 7
  show ?case by simp
next
  case (8 x)
  show ?case
  proof (intro allI impI)
    fix n s rest
    assume s: "skip_ws s = dumps_elems [x] @ CHR '']'' # rest" and f: "fuel_elems [x] \<le> n"
    obtain m where n: "n = Suc m" and fm: "fuel_value x \<le> m" using f by (cases n) auto
    have pv: "parse_value m s = Some (x, CHR '']'' # rest)"
      using "8.IH" s fm no_digit_ahead_bracket[of rest] by simp
    show "parse_elems n s = Some ([x], rest)"
      unfolding n using parse_elems_last[OF pv] .
  qed
next
  case (9 x y ys)
  show ?case
  proof (intro allI impI)
    fix n s rest
    assume s: "skip_ws s = dumps_elems (x # y # ys) @ CHR '']'' # rest"
      and f: "fuel_elems (x # y # ys) \<le> n"
    obtain m where n: "n = Suc m" and fx: "fuel_value x \<le> m" and fy: "fuel_elems (y # ys) \<le> m"
      using f by (cases n) auto
    let ?tail = "dumps_elems (y # ys) @ CHR '']'' # rest"
    have s': "skip_ws s = json_dumps x @ CHR '','' # CHR '' '' # ?tail" using s by simp
    have pv: "parse_value m s = Some (x, CHR '','' # CHR '' '' # ?tail)"
      using "9.IH"(1) s' fx no_digit_ahead_comma by blast
    have sk: "skip_ws (CHR '' '' # ?tail) = ?tail"
      using skip_ws_dumps_elems[of "y # ys" "CHR '']'' # rest"] by (simp add: is_ws_def)
    have pe: "parse_elems m (CHR '' '' # ?tail) = Some (y # ys, rest)"
      using "9.IH"(2) sk fy by blast
    show "parse_elems n s = Some (x # y # ys, rest)"
      unfolding n using parse_elems_more[OF pv pe] .
  qed
next
  case 10
  show ?case by simp
next
  case (11 k v)
  show ?case
  proof (intro allI impI)
    fix n s rest
    assume s: "skip_ws s = dumps_items [(k, v)] @ CHR ''}'' # rest"
      and f: "fuel_items [(k, v)] \<le> n"
    obtain m where n: "n = Suc m" and fm: "fuel_value v \<le> m" using f by (cases n) auto
    let ?after = "CHR '':'' # CHR '' '' # json_dumps v @ CHR ''}'' # rest"
    obtain t where h: "json_string k @ ?after = dquote # t"
      using json_string_head[of k] by auto
    have s': "skip_ws s = dquote # t" using s h by simp
    have pk: "parse_chars t = Some (k, CHR '':'' # (CHR '' '' # json_dumps v @ CHR ''}'' # rest))"
      using parse_chars_json_string[OF h] .
    have sk: "skip_ws (CHR '' '' # json_dumps v @ CHR ''}'' # rest) = json_dumps v @ CHR ''}'' # rest"
      using skip_ws_json_dumps[of v "CHR ''}'' # rest"] by (simp add: is_ws_def)
    have pv: "parse_value m (CHR '' '' # json_dumps v @ CHR ''}'' # rest) = Some (v, CHR ''}'' # rest)"
      using "11.IH" sk fm no_digit_ahead_brace by blast
    show "parse_items n s = Some ([(k, v)], rest)"
      unfolding n using parse_items_last[OF s' pk pv] .
  qed
next
  case (12 k v kv kvs)
  show ?case
  proof (intro allI impI)
    fix n s rest
    assume s: "skip_ws s = dumps_items ((k, v) # kv # kvs) @ CHR ''}'' # rest"
      and f: "fuel_items ((k, v) # kv # kvs) \<le> n"
    obtain m where n: "n = Suc m" and fv: "fuel_value v \<le> m"
      and fr: "fuel_items (kv # kvs) \<le> m"
      using f by (cases n) auto
    let ?tail = "dumps_items (kv # kvs) @ CHR ''}'' # rest"
    let ?val = "json_dumps v @ CHR '','' # CHR '' '' # ?tail"
    obtain t where h: "json_string k @ CHR '':'' # CHR '' '' # ?val = dquote # t"
      using json_string_head[of k] by auto
    have s': "skip_ws s = dquote # t" using s h by simp
    have pk: "parse_chars t = Some (k, CHR '':'' # (CHR '' '' # ?val))"
      using parse_chars_json_string[OF h] .
    have sk: "skip_ws (CHR '' '' # ?val) = ?val"
      using skip_ws_json_dumps[of v "CHR '','' # CHR '' '' # ?tail"] by (simp add: is_ws_def)
    have pv: "parse_value m (CHR '' '' # ?val) = Some (v, CHR '','' # (CHR '' '' # ?tail))"
      using "12.IH"(1) sk fv no_digit_ahead_comma by blast
    have sk2: "skip_ws (CHR '' '' # ?tail) = ?tail"
      using skip_ws_dumps_items[of "kv # kvs" "CHR ''}'' # rest"] by (simp add: is_ws_def)
    have pi: "parse_items m (CHR '' '' # ?tail) = Some (kv # kvs, rest)"
      using "12.IH"(2) sk2 fr by blast
    show "parse_items n s = Some ((k, v) # kv # kvs, rest)"
      unfolding n using parse_items_more[OF s' pk pv pi] .
  qed
qed

lemma str_int_length: "Suc 0 \<le> length (str_int i)"
  using str_int_head[of i] by auto

lemma fuel_bound:
  "fuel_value v \<le> length (json_dumps v)"
  "fuel_elems xs \<le> Suc (length (dumps_elems xs))"
  "fuel_items kvs \<le> Suc (length (dumps_items kvs))"
proof (induction v and xs and kvs rule: json_dumps_dumps_elems_dumps_items.induct)
  case (3 i)
  show ?case using str_int_length[of i] by (simp del: length_greater_0_conv)
next
  case (4 str)
  show ?case by (simp add: json_string_def)
qed auto

text \<open>Decoding an encoded value gives the value back.\<close>

lemma json_loads_json_dumps: "json_loads (json_dumps v) = Some v"
proof -
  have f: "fuel_value v \<le> Suc (length (json_dumps v))"
    using fuel_bound(1)[of v] by simp
  have s: "skip_ws (json_dumps v) = json_dumps v @ []"
    using skip_ws_json_dumps[of v "[]"] by simp
  have "parse_value (Suc (length (json_dumps v))) (json_dumps v) = Some (v, [])"
    using parse_roundtrip(1)[of v] s f no_digit_ahead_Nil by blast
  then show ?thesis by (simp add: json_loads_def)
qed

text \<open>
  C10. For every call of \<open>cfnresponse\<close> with an event that holds the four keys, the one request
  it makes carries the encoded response body, and decoding that text gives back the eight
  fields with the values they were built from: the status, the reason naming the log stream,
  the stack, request and logical resource identifiers of the event, the flag and the data.
  With the default arguments the flag is false and the physical resource identifier is the
  log stream's name. Strings are those of the model (code points below 256) and the data is a
  value of type \<open>json\<close>.
\<close>

theorem callback_payload_roundtrip:
  assumes "event ''StackId'' = Some stack_id" and "event ''RequestId'' = Some request_id"
    and "event ''LogicalResourceId'' = Some logical_id" and "event ''ResponseURL'' = Some url"
  shows "http_requests (trace (snd (cfnresponse w event ctx status data pid ne s))) =
           http_requests (trace s) @
           [(''PUT'', url,
             json_dumps (responseBody (log_stream_name ctx) stack_id request_id logical_id
                           status data pid ne))] \<and>
         json_loads (json_dumps (responseBody (log_stream_name ctx) stack_id request_id
                                   logical_id status data pid ne)) =
           Some (JObj [
             (''Status'', JStr status),
             (''Reason'', JStr (''See the details in CloudWatch Log Stream: ''
                               @ log_stream_name ctx)),
             (''PhysicalResourceId'', JStr (or_default pid (log_stream_name ctx))),
             (''StackId'', JStr stack_id),
             (''RequestId'', JStr request_id),
             (''LogicalResourceId'', JStr logical_id),
             (''NoEcho'', JBool ne),
             (''Data'', data)]) \<and>
         or_default default_physicalResourceId (log_stream_name ctx) = log_stream_name ctx \<and>
         default_noEcho = False"
proof -
  let ?body = "json_dumps (responseBody (log_stream_name ctx) stack_id request_id logical_id
                             status data pid ne)"
  obtain logs where
    t: "cfnresponse w event ctx status data pid ne s =
          (Inr (),
           s\<lparr>trace := trace s @
              Http_request ''PUT'' url ?body
                [(''content-type'', []), (''content-length'', str_nat (length ?body))] # logs\<rparr>)"
    and l: "list_all is_Log logs"
    using cfnresponse_trace[OF assms, of w ctx status data pid ne s]
    by (elim exE conjE) (rule that)
  have a: "http_requests (trace (snd (cfnresponse w event ctx status data pid ne s))) =
             http_requests (trace s) @ [(''PUT'', url, ?body)]"
    using t l by (simp add: http_requests_append http_requests_logs)
  have b: "json_loads ?body =
             Some (responseBody (log_stream_name ctx) stack_id request_id logical_id status data
                     pid ne)"
    by (rule json_loads_json_dumps)
  have c: "or_default default_physicalResourceId (log_stream_name ctx) = log_stream_name ctx"
    by (simp add: or_default_def default_physicalResourceId_def)
  have d: "default_noEcho = False"
    by (simp add: default_noEcho_def)
  show ?thesis
    using a b c d unfolding responseBody_def by blast
qed

text \<open>The call the handler makes, in \<open>world0\<close>.\<close>

theorem callback_payload_roundtrip_witness:
  "http_requests
     (trace (snd (cfnresponse world0 event0 context0 ''SUCCESS'' (JObj [(''Data'', JInt 120)])
                    default_physicalResourceId default_noEcho state0))) =
     [(''PUT'', ''https://cloudformation.example/response'',
       json_dumps (responseBody ''2026/11/04/stream'' ''stack-1'' ''request-1''
                     ''EnableGuardDuty'' ''SUCCESS'' (JObj [(''Data'', JInt 120)]) None False))] \<and>
   json_loads (json_dumps (responseBody ''2026/11/04/stream'' ''stack-1'' ''request-1''
                             ''EnableGuardDuty'' ''SUCCESS'' (JObj [(''Data'', JInt 120)])
                             None False)) =
     Some (JObj [
       (''Status'', JStr ''SUCCESS''),
       (''Reason'', JStr ''See the details in CloudWatch Log Stream: 2026/11/04/stream''),
       (''PhysicalResourceId'', JStr ''2026/11/04/stream''),
       (''StackId'', JStr ''stack-1''),
       (''RequestId'', JStr ''request-1''),
       (''LogicalResourceId'', JStr ''EnableGuardDuty''),
       (''NoEcho'', JBool False),
       (''Data'', JObj [(''Data'', JInt 120)])])"
proof -
  have e: "event0 ''StackId'' = Some ''stack-1''" "event0 ''RequestId'' = Some ''request-1''"
    "event0 ''LogicalResourceId'' = Some ''EnableGuardDuty''"
    "event0 ''ResponseURL'' = Some ''https://cloudformation.example/response''"
    by (simp_all add: event0_def)
  show ?thesis
    using callback_payload_roundtrip[OF e, of world0 context0 "''SUCCESS''"
            "JObj [(''Data'', JInt 120)]" None False state0]
    by (simp add: context0_def state0_def default_physicalResourceId_def default_noEcho_def
          or_default_def)
qed

end
